theory Spec2Isabelle
  imports Complex_Main "HOL-Library.Word"
begin

section \<open>The \<^verbatim>\<open>double\<close> arithmetic of the converter\<close>

text \<open>
  \<^verbatim>\<open>Text2MCPL.C\<close> computes with C \<^verbatim>\<open>double\<close>: IEEE 754 binary64, every operation rounded
  to nearest (ties to even). A value is a NaN, an infinity, the negative zero, or a finite
  real (\<open>Fin 0\<close> is the positive zero). NaN payloads are not told apart. The operations
  below are the ones \<^verbatim>\<open>main\<close> uses: \<^verbatim>\<open>*\<close>, \<^verbatim>\<open>+\<close>, \<^verbatim>\<open>-\<close>, \<^verbatim>\<open>/\<close>, \<^verbatim>\<open>sqrt\<close>, \<^verbatim>\<open>fabs\<close>, \<^verbatim>\<open>==\<close>, \<^verbatim>\<open>>\<close>.
  Each one rounds its exact result once, to binary64: no wider intermediate format and no
  fused multiply-add.
\<close>

datatype double = NaN | PInf | NInf | NegZero | Fin real

definition signbit :: "double \<Rightarrow> bool" where
  "signbit d = (case d of NaN \<Rightarrow> False | PInf \<Rightarrow> False | NInf \<Rightarrow> True
                | NegZero \<Rightarrow> True | Fin r \<Rightarrow> r < 0)"

definition valof :: "double \<Rightarrow> real" where
  "valof d = (case d of Fin r \<Rightarrow> r | _ \<Rightarrow> 0)"

definition is_nan :: "double \<Rightarrow> bool" where
  "is_nan d = (d = NaN)"

definition is_inf :: "double \<Rightarrow> bool" where
  "is_inf d = (d = PInf \<or> d = NInf)"

definition is_zero :: "double \<Rightarrow> bool" where
  "is_zero d = (d = NegZero \<or> d = Fin 0)"

definition inf_of :: "bool \<Rightarrow> double" where
  "inf_of neg = (if neg then NInf else PInf)"

definition zero_of :: "bool \<Rightarrow> double" where
  "zero_of neg = (if neg then NegZero else Fin 0)"

text \<open>Rounding a real to the nearest integer, a tie to the even one.\<close>

definition rne :: "real \<Rightarrow> int" where
  "rne r = (let f = \<lfloor>r\<rfloor> in
            if r - of_int f < 1 / 2 then f
            else if 1 / 2 < r - of_int f then f + 1
            else if even f then f else f + 1)"

text \<open>
  The exponent of the last place of the binary64 numbers around \<open>x\<close>: 53 significant bits,
  and never below \<open>-1074\<close> (the subnormal range).
\<close>

definition ulp_exp :: "real \<Rightarrow> int" where
  "ulp_exp x = max (\<lfloor>log 2 \<bar>x\<bar>\<rfloor> - 52) (- 1074)"

text \<open>
  Rounding the exact result of an operation to binary64. The flag is the sign a zero result
  takes. A result that rounds to \<open>2 ^ 1024\<close> or beyond overflows to an infinity.
\<close>

definition round64 :: "bool \<Rightarrow> real \<Rightarrow> double" where
  "round64 neg x =
     (if x = 0 then zero_of neg
      else let q = ulp_exp x;
               y = of_int (rne (x / 2 powi q)) * 2 powi q
           in if 2 ^ 1024 \<le> \<bar>y\<bar> then inf_of (x < 0)
              else if y = 0 then zero_of neg
              else Fin y)"

definition fneg :: "double \<Rightarrow> double" where
  "fneg a = (case a of NaN \<Rightarrow> NaN | PInf \<Rightarrow> NInf | NInf \<Rightarrow> PInf
             | NegZero \<Rightarrow> Fin 0 | Fin r \<Rightarrow> (if r = 0 then NegZero else Fin (- r)))"

definition fabs :: "double \<Rightarrow> double" where
  "fabs a = (case a of NaN \<Rightarrow> NaN | PInf \<Rightarrow> PInf | NInf \<Rightarrow> PInf
             | NegZero \<Rightarrow> Fin 0 | Fin r \<Rightarrow> Fin \<bar>r\<bar>)"

definition fmul :: "double \<Rightarrow> double \<Rightarrow> double" where
  "fmul a b =
     (if is_nan a \<or> is_nan b then NaN
      else if is_inf a \<or> is_inf b then
        (if is_zero a \<or> is_zero b then NaN else inf_of (signbit a \<noteq> signbit b))
      else round64 (signbit a \<noteq> signbit b) (valof a * valof b))"

definition fdiv :: "double \<Rightarrow> double \<Rightarrow> double" where
  "fdiv a b =
     (if is_nan a \<or> is_nan b then NaN
      else if is_inf a then (if is_inf b then NaN else inf_of (signbit a \<noteq> signbit b))
      else if is_inf b then zero_of (signbit a \<noteq> signbit b)
      else if is_zero b then (if is_zero a then NaN else inf_of (signbit a \<noteq> signbit b))
      else round64 (signbit a \<noteq> signbit b) (valof a / valof b))"

definition fadd :: "double \<Rightarrow> double \<Rightarrow> double" where
  "fadd a b =
     (if is_nan a \<or> is_nan b then NaN
      else if is_inf a then (if is_inf b \<and> signbit a \<noteq> signbit b then NaN else a)
      else if is_inf b then b
      else if is_zero a \<and> is_zero b then zero_of (signbit a \<and> signbit b)
      else round64 (valof a + valof b < 0) (valof a + valof b))"

definition fsub :: "double \<Rightarrow> double \<Rightarrow> double" where
  "fsub a b = fadd a (fneg b)"

definition fsqrt :: "double \<Rightarrow> double" where
  "fsqrt a = (case a of NaN \<Rightarrow> NaN | PInf \<Rightarrow> PInf | NInf \<Rightarrow> NaN | NegZero \<Rightarrow> NegZero
              | Fin r \<Rightarrow> (if r < 0 then NaN else round64 False (sqrt r)))"

text \<open>The comparisons of C: every comparison with a NaN is false, the two zeros are equal.\<close>

definition feq :: "double \<Rightarrow> double \<Rightarrow> bool" where
  "feq a b =
     (if is_nan a \<or> is_nan b then False
      else if is_inf a \<or> is_inf b then a = b
      else valof a = valof b)"

definition fgt :: "double \<Rightarrow> double \<Rightarrow> bool" where
  "fgt a b =
     (if is_nan a \<or> is_nan b then False
      else if a = PInf then b \<noteq> PInf
      else if a = NInf then False
      else if b = PInf then False
      else if b = NInf then True
      else valof b < valof a)"

definition fle :: "double \<Rightarrow> double \<Rightarrow> bool" where
  "fle a b = (if is_nan a \<or> is_nan b then False else \<not> fgt a b)"

text \<open>Conversion of an \<^verbatim>\<open>int\<close> to \<^verbatim>\<open>double\<close>, and the decimal literals of the source.\<close>

definition double_of_int :: "int \<Rightarrow> double" where
  "double_of_int i = round64 False (of_int i)"

definition lit_1_0 :: double where
  "lit_1_0 = round64 False 1"

definition lit_1_0e_5 :: double where
  "lit_1_0e_5 = round64 False (1 / 100000)"

section \<open>The input stream and \<^verbatim>\<open>fscanf\<close>\<close>

text \<open>
  The conversion of text to \<^verbatim>\<open>double\<close> belongs to the C library. A stream is the sequence of
  items the \<^verbatim>\<open>%lf\<close> directive meets once white space is skipped: a numeral, with the
  \<^verbatim>\<open>double\<close> it converts to (\<^verbatim>\<open>nan\<close> and \<^verbatim>\<open>inf\<close> are numerals of \<^verbatim>\<open>%lf\<close>), or text that is
  no numeral.
\<close>

datatype token = Num double | Junk

type_synonym stream = "token list"

text \<open>Up to \<open>n\<close> conversions: the values assigned, and the stream left behind.\<close>

fun scan_lf :: "nat \<Rightarrow> stream \<Rightarrow> double list \<times> stream" where
  "scan_lf 0 f = ([], f)"
| "scan_lf (Suc n) [] = ([], [])"
| "scan_lf (Suc n) (Junk # f) = ([], Junk # f)"
| "scan_lf (Suc n) (Num d # f) = (let r = scan_lf n f in (d # fst r, snd r))"

text \<open>
  \<^verbatim>\<open>fscanf(f, "%lf %lf %lf %lf %lf %lf %lf", ...)\<close>: the number of assignments, or \<^verbatim>\<open>EOF\<close>
  (\<open>-1\<close>) when the input ends before the first conversion; the values assigned, in the
  order of the arguments; the stream after the call.
\<close>

definition fscanf7 :: "stream \<Rightarrow> int \<times> double list \<times> stream" where
  "fscanf7 f =
     (let r = scan_lf 7 f
      in (if fst r = [] \<and> snd r = [] then - 1 else int (length (fst r)), fst r, snd r))"

section \<open>The particle, the sink and the messages\<close>

type_synonym vec3 = "double \<times> double \<times> double"

definition set_at :: "nat \<Rightarrow> double \<Rightarrow> vec3 \<Rightarrow> vec3" where
  "set_at i v a =
     (case a of (a0, a1, a2) \<Rightarrow>
        if i = 0 then (v, a1, a2) else if i = 1 then (a0, v, a2) else (a0, a1, v))"

text \<open>
  Modelled from the spec: the particle structure is declared in \<^verbatim>\<open>mcpl.h\<close>, which is not
  among the sources. The record has the fields \<^verbatim>\<open>main\<close> assigns (the spec's output record:
  position, direction, kinetic energy, species code, weight); whatever else the structure
  holds is the extension of the record, which \<^verbatim>\<open>main\<close> never touches. The object
  \<^verbatim>\<open>particle\<close> points to is not declared in the source either: its initial value is a
  parameter of \<open>main\<close>.
\<close>

record mcpl_particle =
  position :: vec3
  pdgcode :: int
  ekin :: double
  direction :: vec3
  weight :: double

datatype msg =
    Usage "string option"
  | Error_opening string
  | Skipping_zero int
  | Debugging_dirsq double
  | Skipping_not_normalized int
  | Added int

text \<open>What the program does to the world, in the order it does it.\<close>

datatype 'a event =
    Printf msg
  | Mcpl_create_outfile string
  | Mcpl_hdr_set_srcname string
  | Mcpl_hdr_add_comment string
  | Mcpl_add_particle "'a mcpl_particle_scheme"
  | Mcpl_closeandgzip_outfile
  | Fclose

record 'a lstate =
  particle :: "'a mcpl_particle_scheme"
  ind :: "32 word"
  trace :: "'a event list"

section \<open>\<^verbatim>\<open>main\<close>\<close>

definition pdg_num_neutron :: int where
  "pdg_num_neutron = 2112"

definition weight_const :: int where
  "weight_const = 1"

text \<open>
  One pass through the body of the \<^verbatim>\<open>while\<close> loop, each \<^verbatim>\<open>continue\<close> an early result. The
  counter \<^verbatim>\<open>ind\<close> is a 32-bit \<^verbatim>\<open>int\<close> that only feeds the messages; here it wraps around where C
  leaves the overflow undefined.
\<close>

definition loop_body ::
  "double \<Rightarrow> double \<Rightarrow> double \<Rightarrow> double \<Rightarrow> double \<Rightarrow> double \<Rightarrow> double \<Rightarrow> 'a lstate \<Rightarrow> 'a lstate"
where
  "loop_body hit_x hit_y hit_z px py pz kinetic_energy s =
     (let len = fsqrt (fadd (fadd (fmul px px) (fmul py py)) (fmul pz pz)) in
      if feq len (double_of_int 0) then
        s\<lparr>trace := trace s @ [Printf (Skipping_zero (sint (ind s)))], ind := ind s + 1\<rparr>
      else
        let normalized_dx = fdiv px len;
            normalized_dy = fdiv py len;
            normalized_dz = fdiv pz len;
            dirsq = fadd (fadd (fmul normalized_dx normalized_dx)
                               (fmul normalized_dy normalized_dy))
                         (fmul normalized_dz normalized_dz);
            s1 = s\<lparr>trace := trace s @ [Printf (Debugging_dirsq dirsq)]\<rparr>
        in if fgt (fabs (fsub dirsq lit_1_0)) lit_1_0e_5 then
             s1\<lparr>trace := trace s1 @ [Printf (Skipping_not_normalized (sint (ind s1)))],
                ind := ind s1 + 1\<rparr>
           else
             let p1 = (particle s1)\<lparr>position := set_at 0 hit_x (position (particle s1))\<rparr>;
                 p2 = p1\<lparr>position := set_at 1 hit_y (position p1)\<rparr>;
                 p3 = p2\<lparr>position := set_at 2 hit_z (position p2)\<rparr>;
                 p4 = p3\<lparr>pdgcode := pdg_num_neutron\<rparr>;
                 p5 = p4\<lparr>ekin := kinetic_energy\<rparr>;
                 p6 = p5\<lparr>direction := set_at 0 normalized_dx (direction p5)\<rparr>;
                 p7 = p6\<lparr>direction := set_at 1 normalized_dy (direction p6)\<rparr>;
                 p8 = p7\<lparr>direction := set_at 2 normalized_dz (direction p7)\<rparr>;
                 p9 = p8\<lparr>weight := double_of_int weight_const\<rparr>
             in s1\<lparr>particle := p9,
                   trace := trace s1 @ [Mcpl_add_particle p9, Printf (Added (sint (ind s1)))],
                   ind := ind s1 + 1\<rparr>)"

text \<open>
  The \<^verbatim>\<open>while\<close> loop: it goes on as long as \<^verbatim>\<open>fscanf\<close> returns 7. The seven values are then
  \<^verbatim>\<open>hit_x\<close>, \<^verbatim>\<open>hit_y\<close>, \<^verbatim>\<open>hit_z\<close>, \<^verbatim>\<open>px\<close>, \<^verbatim>\<open>py\<close>, \<^verbatim>\<open>pz\<close>, \<^verbatim>\<open>kinetic_energy\<close>, in this order.
\<close>

definition body_on :: "double list \<Rightarrow> 'a lstate \<Rightarrow> 'a lstate" where
  "body_on vals s =
     (case vals of
        [hit_x, hit_y, hit_z, px, py, pz, kinetic_energy] \<Rightarrow>
          loop_body hit_x hit_y hit_z px py pz kinetic_energy s
      | _ \<Rightarrow> s)"

lemma scan_lf_length: "length (snd (scan_lf n f)) + length (fst (scan_lf n f)) = length f"
  by (induction n f rule: scan_lf.induct) (simp_all add: Let_def)

lemma fscanf7_consumes: "fst (fscanf7 f) = 7 \<Longrightarrow> length (snd (snd (fscanf7 f))) < length f"
  using scan_lf_length [of 7 f] by (simp add: fscanf7_def Let_def split: if_splits)

function read_loop :: "stream \<Rightarrow> 'a lstate \<Rightarrow> 'a lstate" where
  "read_loop f s =
     (let r = fscanf7 f
      in if fst r = 7 then read_loop (snd (snd r)) (body_on (fst (snd r)) s) else s)"
  by pat_completeness auto
termination
  by (relation "measure (\<lambda>(f, s). length f)") (simp_all add: fscanf7_consumes)

definition comment_text :: string where
  "comment_text = ''Extracting Neutrons from the txt file''"

text \<open>
  \<^verbatim>\<open>main\<close>: the files that can be opened for reading are a map from names to streams;
  \<open>argv\<close> is the argument vector, \<^verbatim>\<open>argc\<close> its length. The result is the exit status and
  the trace. The calls into the MCPL library are events of the trace: what the library
  does on them (also when it fails) is not the converter's.
\<close>

definition main ::
  "(string \<Rightarrow> stream option) \<Rightarrow> 'a mcpl_particle_scheme \<Rightarrow> string list \<Rightarrow> int \<times> 'a event list"
where
  "main fs particle0 argv =
     (if int (length argv) \<noteq> 3 then
        (1, [Printf (Usage (case argv of [] \<Rightarrow> None | a # _ \<Rightarrow> Some a))])
      else
        let input_file = argv ! 1;
            output_file = argv ! 2
        in case fs input_file of
             None \<Rightarrow> (1, [Printf (Error_opening input_file)])
           | Some f \<Rightarrow>
               let s0 = \<lparr>particle = particle0, ind = 0,
                         trace = [Mcpl_create_outfile output_file,
                                  Mcpl_hdr_set_srcname output_file,
                                  Mcpl_hdr_add_comment comment_text]\<rparr>;
                   s = read_loop f s0
               in (0, trace s @ [Mcpl_closeandgzip_outfile, Fclose]))"

section \<open>What the loop decides, and what it emits\<close>

text \<open>The quantities of the loop body, named: lines 91, 100 to 102 and 105 of the source.\<close>

definition momentum_length :: "double \<Rightarrow> double \<Rightarrow> double \<Rightarrow> double" where
  "momentum_length px py pz = fsqrt (fadd (fadd (fmul px px) (fmul py py)) (fmul pz pz))"

definition normalized :: "double \<Rightarrow> double \<Rightarrow> double \<Rightarrow> vec3" where
  "normalized px py pz =
     (let len = momentum_length px py pz in (fdiv px len, fdiv py len, fdiv pz len))"

definition dirsq_of :: "vec3 \<Rightarrow> double" where
  "dirsq_of d = (case d of (dx, dy, dz) \<Rightarrow> fadd (fadd (fmul dx dx) (fmul dy dy)) (fmul dz dz))"

text \<open>The two tests that end in \<^verbatim>\<open>continue\<close> (lines 92 and 107), and the record that passes both.\<close>

definition skips_zero :: "double \<Rightarrow> double \<Rightarrow> double \<Rightarrow> bool" where
  "skips_zero px py pz = feq (momentum_length px py pz) (double_of_int 0)"

definition skips_not_normalized :: "double \<Rightarrow> double \<Rightarrow> double \<Rightarrow> bool" where
  "skips_not_normalized px py pz =
     fgt (fabs (fsub (dirsq_of (normalized px py pz)) lit_1_0)) lit_1_0e_5"

definition accepts :: "double \<Rightarrow> double \<Rightarrow> double \<Rightarrow> bool" where
  "accepts px py pz = (if skips_zero px py pz then False else \<not> skips_not_normalized px py pz)"

text \<open>The particle as lines 115 to 123 leave it: five fields assigned, the rest as it was.\<close>

definition emitted ::
  "double \<Rightarrow> double \<Rightarrow> double \<Rightarrow> double \<Rightarrow> double \<Rightarrow> double \<Rightarrow> double \<Rightarrow>
   'a mcpl_particle_scheme \<Rightarrow> 'a mcpl_particle_scheme" where
  "emitted hit_x hit_y hit_z px py pz kinetic_energy p =
     p\<lparr>position := (hit_x, hit_y, hit_z), pdgcode := 2112, ekin := kinetic_energy,
       direction := normalized px py pz, weight := Fin 1\<rparr>"

text \<open>The same on the list of values one \<^verbatim>\<open>fscanf\<close> call assigns.\<close>

definition accepts_rec :: "double list \<Rightarrow> bool" where
  "accepts_rec vals =
     (case vals of [hit_x, hit_y, hit_z, px, py, pz, kinetic_energy] \<Rightarrow> accepts px py pz
      | _ \<Rightarrow> False)"

definition emitted_rec :: "'a mcpl_particle_scheme \<Rightarrow> double list \<Rightarrow> 'a mcpl_particle_scheme" where
  "emitted_rec p vals =
     (case vals of
        [hit_x, hit_y, hit_z, px, py, pz, kinetic_energy] \<Rightarrow>
          emitted hit_x hit_y hit_z px py pz kinetic_energy p
      | _ \<Rightarrow> p)"

text \<open>
  The complete records of a stream: the values of the \<^verbatim>\<open>fscanf\<close> calls that return 7, up to the
  first call that does not.
\<close>

function parsed_records :: "stream \<Rightarrow> double list list" where
  "parsed_records f =
     (let r = fscanf7 f
      in if fst r = 7 then fst (snd r) # parsed_records (snd (snd r)) else [])"
  by pat_completeness auto
termination
  by (relation "measure length") (simp_all add: fscanf7_consumes)

text \<open>The text of a list of records, one numeral for each value.\<close>

definition stream_of :: "double list list \<Rightarrow> stream" where
  "stream_of recs = concat (map (map Num) recs)"

text \<open>Reading the trace: the particles handed to the sink, and the records reported as skipped.\<close>

fun added_particles :: "'a event list \<Rightarrow> 'a mcpl_particle_scheme list" where
  "added_particles [] = []"
| "added_particles (Mcpl_add_particle p # es) = p # added_particles es"
| "added_particles (e # es) = added_particles es"

fun is_skip :: "'a event \<Rightarrow> bool" where
  "is_skip (Printf (Skipping_zero i)) = True"
| "is_skip (Printf (Skipping_not_normalized i)) = True"
| "is_skip e = False"

definition count_skips :: "'a event list \<Rightarrow> nat" where
  "count_skips es = length (filter is_skip es)"

fun is_sink_call :: "'a event \<Rightarrow> bool" where
  "is_sink_call (Printf m) = False"
| "is_sink_call Fclose = False"
| "is_sink_call e = True"

fun is_header_call :: "'a event \<Rightarrow> bool" where
  "is_header_call (Mcpl_hdr_set_srcname n) = True"
| "is_header_call (Mcpl_hdr_add_comment c) = True"
| "is_header_call e = False"


text \<open>
  The validity the specification states, in its words: the momentum magnitude is greater
  than 0, and the squared magnitude of the normalized direction is within \<open>1.0e-5\<close> of
  \<open>1.0\<close>. The comparisons are those of \<^verbatim>\<open>double\<close>: none holds of a NaN.
\<close>

definition spec_valid :: "double \<Rightarrow> double \<Rightarrow> double \<Rightarrow> bool" where
  "spec_valid px py pz =
     (fgt (momentum_length px py pz) (Fin 0) \<and>
      fle (fabs (fsub (dirsq_of (normalized px py pz)) (Fin 1))) lit_1_0e_5)"

text \<open>Finite values, and the length of a vector of finite components as a real number.\<close>

definition is_finite :: "double \<Rightarrow> bool" where
  "is_finite d = (case d of NegZero \<Rightarrow> True | Fin r \<Rightarrow> True | _ \<Rightarrow> False)"

definition finite3 :: "vec3 \<Rightarrow> bool" where
  "finite3 d = (case d of (dx, dy, dz) \<Rightarrow> is_finite dx \<and> is_finite dy \<and> is_finite dz)"

definition magnitude :: "vec3 \<Rightarrow> real" where
  "magnitude d = (case d of (dx, dy, dz) \<Rightarrow> sqrt ((valof dx)\<^sup>2 + (valof dy)\<^sup>2 + (valof dz)\<^sup>2))"

text \<open>The events the loop itself produces, and the state it starts from (lines 75 to 85).\<close>

fun is_loop_event :: "'a event \<Rightarrow> bool" where
  "is_loop_event (Printf m) = True"
| "is_loop_event (Mcpl_add_particle p) = True"
| "is_loop_event e = False"

definition state0 :: "'a mcpl_particle_scheme \<Rightarrow> string \<Rightarrow> 'a lstate" where
  "state0 p0 output_file =
     \<lparr>particle = p0, ind = 0,
      trace = [Mcpl_create_outfile output_file, Mcpl_hdr_set_srcname output_file,
               Mcpl_hdr_add_comment comment_text]\<rparr>"

text \<open>
  Concrete runs. The first two records are the end-to-end examples of the specification
  (\<^verbatim>\<open>0 0 0 1 0 0 5.0\<close> and \<^verbatim>\<open>1 1 1 0 0 0 3.0\<close>); \<^verbatim>\<open>bad.txt\<close> holds \<^verbatim>\<open>0 0 0 nan 0 0 1\<close> and
  \<^verbatim>\<open>0 0 0 1e999 0 0 1\<close>, whose fourth numerals convert to a NaN and (by overflow) to
  \<open>+\<infinity>\<close>; \<^verbatim>\<open>cut.txt\<close> ends in the middle of a record.
\<close>

definition demo_p0 :: mcpl_particle where
  "demo_p0 = \<lparr>position = (Fin 0, Fin 0, Fin 0), pdgcode = 0, ekin = Fin 0,
              direction = (Fin 0, Fin 0, Fin 0), weight = Fin 0\<rparr>"

definition demo_argv :: "string list" where
  "demo_argv = [''Text2MCPL'', ''in.txt'', ''out.mcpl'']"

definition bad_argv :: "string list" where
  "bad_argv = [''Text2MCPL'', ''bad.txt'', ''out.mcpl'']"

definition cut_argv :: "string list" where
  "cut_argv = [''Text2MCPL'', ''cut.txt'', ''out.mcpl'']"

definition missing_argv :: "string list" where
  "missing_argv = [''Text2MCPL'', ''missing.txt'', ''out.mcpl'']"

definition rec_unit_x :: "double list" where
  "rec_unit_x = [Fin 0, Fin 0, Fin 0, Fin 1, Fin 0, Fin 0, Fin 5]"

definition rec_at_rest :: "double list" where
  "rec_at_rest = [Fin 1, Fin 1, Fin 1, Fin 0, Fin 0, Fin 0, Fin 3]"

definition rec_nan :: "double list" where
  "rec_nan = [Fin 0, Fin 0, Fin 0, NaN, Fin 0, Fin 0, Fin 1]"

definition rec_inf :: "double list" where
  "rec_inf = [Fin 0, Fin 0, Fin 0, PInf, Fin 0, Fin 0, Fin 1]"

definition demo_fs :: "string \<Rightarrow> stream option" where
  "demo_fs name =
     (if name = ''in.txt'' then Some (stream_of [rec_unit_x, rec_at_rest])
      else if name = ''bad.txt'' then Some (stream_of [rec_nan, rec_inf])
      else if name = ''cut.txt'' then Some (stream_of [rec_unit_x] @ [Num (Fin 2), Junk])
      else None)"


text \<open>
  A third file, \<^verbatim>\<open>mix.txt\<close>: the records \<^verbatim>\<open>3 4 5 0 2 0 7\<close> and \<^verbatim>\<open>3 4 5 2 nan 0 7\<close>.
\<close>

definition rec_unit_y :: "double list" where
  "rec_unit_y = [Fin 3, Fin 4, Fin 5, Fin 0, Fin 2, Fin 0, Fin 7]"

definition rec_nan_y :: "double list" where
  "rec_nan_y = [Fin 3, Fin 4, Fin 5, Fin 2, NaN, Fin 0, Fin 7]"

definition mix_argv :: "string list" where
  "mix_argv = [''Text2MCPL'', ''mix.txt'', ''out.mcpl'']"

definition mix_fs :: "string \<Rightarrow> stream option" where
  "mix_fs name = (if name = ''mix.txt'' then Some (stream_of [rec_unit_y, rec_nan_y]) else None)"

section \<open>Evaluating the arithmetic\<close>

lemma round64_0: "round64 s 0 = zero_of s"
  by (simp add: round64_def)

lemma rne_of_int: "rne (of_int k) = k"
  by (simp add: rne_def)

lemma rne_numeral: "rne (numeral k) = numeral k"
  using rne_of_int [of "numeral k"] by simp

lemma ulp_exp_1: "ulp_exp 1 = - 52"
  by (simp add: ulp_exp_def)

lemma round64_1: "round64 s 1 = Fin 1"
  by (simp add: round64_def ulp_exp_1 Let_def rne_numeral inf_of_def power_int_minus)

lemma double_of_int_0: "double_of_int 0 = Fin 0"
  by (simp add: double_of_int_def round64_0 zero_of_def)

lemma double_of_int_1: "double_of_int 1 = Fin 1"
  by (simp add: double_of_int_def round64_1)

lemma lit_1_0: "lit_1_0 = Fin 1"
  by (simp add: lit_1_0_def round64_1)

lemma floor_log2_eq:
  assumes "2 powi n \<le> x" "x < 2 powi (n + 1)"
  shows "\<lfloor>log 2 x\<rfloor> = n"
proof -
  have x0: "0 < x"
    using assms(1) by (smt (verit) zero_less_power_int)
  have e1: "(2::real) powr of_int n = 2 powi n"
    by (simp add: powr_real_of_int')
  have e2: "(2::real) powr of_int (n + 1) = 2 powi (n + 1)"
    by (rule powr_real_of_int') simp_all
  have "of_int n \<le> log 2 x"
    using assms(1) x0 e1 by (simp add: le_log_iff)
  moreover have "log 2 x < of_int (n + 1)"
    using assms(2) x0 e2 by (simp only: log_less_iff)
  ultimately show ?thesis
    by (simp add: floor_eq_iff)
qed

lemma ulp_exp_1e_5: "ulp_exp (1 / 100000) = - 69"
proof -
  have "\<lfloor>log 2 (1 / 100000 :: real)\<rfloor> = - 17"
    by (rule floor_log2_eq) (simp_all add: power_int_minus)
  then show ?thesis
    by (simp add: ulp_exp_def)
qed

text \<open>The literal \<^verbatim>\<open>1.0e-5\<close> is the binary64 number \<^verbatim>\<open>0x3EE4F8B588E368F1\<close>.\<close>

lemma lit_1_0e_5: "lit_1_0e_5 = Fin (5902958103587057 / 2 ^ 69)"
  by (simp add: lit_1_0e_5_def round64_def ulp_exp_1e_5 Let_def rne_def inf_of_def
      power_int_minus)

section \<open>The loop body, case by case\<close>

lemma set_at_all: "set_at 2 c (set_at (Suc 0) b (set_at 0 a v)) = (a, b, c)"
  by (cases v) (simp add: set_at_def)

lemma loop_body_cases:
  "loop_body hit_x hit_y hit_z px py pz kinetic_energy s =
     (if skips_zero px py pz then
        s\<lparr>trace := trace s @ [Printf (Skipping_zero (sint (ind s)))], ind := ind s + 1\<rparr>
      else if skips_not_normalized px py pz then
        s\<lparr>trace := trace s @ [Printf (Debugging_dirsq (dirsq_of (normalized px py pz))),
                               Printf (Skipping_not_normalized (sint (ind s)))],
          ind := ind s + 1\<rparr>
      else
        s\<lparr>particle := emitted hit_x hit_y hit_z px py pz kinetic_energy (particle s),
          trace := trace s @
            [Printf (Debugging_dirsq (dirsq_of (normalized px py pz))),
             Mcpl_add_particle (emitted hit_x hit_y hit_z px py pz kinetic_energy (particle s)),
             Printf (Added (sint (ind s)))],
          ind := ind s + 1\<rparr>)"
  by (simp add: loop_body_def skips_zero_def skips_not_normalized_def momentum_length_def
      normalized_def dirsq_of_def emitted_def Let_def set_at_all pdg_num_neutron_def
      weight_const_def double_of_int_1)

section \<open>Rounding errors\<close>

lemmas arith_defs = fmul_def fadd_def fdiv_def fsub_def fneg_def fsqrt_def fabs_def feq_def
  fgt_def fle_def is_nan_def is_inf_def is_zero_def signbit_def valof_def inf_of_def zero_of_def

lemmas arith_values = round64_0 round64_1 double_of_int_0 lit_1_0 lit_1_0e_5

lemma rne_error: "\<bar>of_int (rne r) - r\<bar> \<le> 1 / 2"
proof -
  have "of_int \<lfloor>r\<rfloor> \<le> r" and "r < of_int \<lfloor>r\<rfloor> + 1"
    by linarith+
  then show ?thesis
    by (auto simp: rne_def Let_def)
qed

lemma two_powi_floor_log: 
  assumes "0 < x"
  shows "2 powi \<lfloor>log 2 x\<rfloor> \<le> x"
proof -
  have "(2::real) powr of_int \<lfloor>log 2 x\<rfloor> \<le> 2 powr log 2 x"
    by (rule powr_mono) simp_all
  moreover have "(2::real) powr of_int \<lfloor>log 2 x\<rfloor> = 2 powi \<lfloor>log 2 x\<rfloor>"
    by (rule powr_real_of_int') simp_all
  ultimately show ?thesis using assms by simp
qed

lemma ulp_bound:
  assumes "x \<noteq> 0"
  shows "2 powi (ulp_exp x) \<le> \<bar>x\<bar> / 2 ^ 52 + 1 / 2 ^ 1074"
proof (cases "\<lfloor>log 2 \<bar>x\<bar>\<rfloor> - 52 \<le> - 1074")
  case True
  then have "ulp_exp x = - 1074" by (simp add: ulp_exp_def)
  then have "(2::real) powi (ulp_exp x) = 1 / 2 ^ 1074"
    by (simp add: power_int_minus field_simps)
  then show ?thesis by simp
next
  case False
  then have q: "ulp_exp x = \<lfloor>log 2 \<bar>x\<bar>\<rfloor> - 52" by (simp add: ulp_exp_def)
  have "(2::real) powi (\<lfloor>log 2 \<bar>x\<bar>\<rfloor> - 52) = 2 powi \<lfloor>log 2 \<bar>x\<bar>\<rfloor> / 2 ^ 52"
    by (simp add: power_int_diff)
  also have "\<dots> \<le> \<bar>x\<bar> / 2 ^ 52"
    using two_powi_floor_log [of "\<bar>x\<bar>"] assms by (simp add: divide_right_mono)
  finally show ?thesis using q by simp
qed

lemma round64_cases:
  "round64 s x = PInf \<or> round64 s x = NInf \<or>
   (round64 s x = zero_of s \<or> round64 s x = Fin (of_int (rne (x / 2 powi ulp_exp x)) * 2 powi ulp_exp x)) \<and>
    valof (round64 s x) = (if x = 0 then 0 else of_int (rne (x / 2 powi ulp_exp x)) * 2 powi ulp_exp x)"
  by (auto simp: round64_def Let_def inf_of_def zero_of_def valof_def)

lemma round64_error:
  assumes "is_finite (round64 s x)"
  shows "\<bar>valof (round64 s x) - x\<bar> \<le> \<bar>x\<bar> / 2 ^ 53 + 1 / 2 ^ 1075"
proof (cases "x = 0")
  case True
  then show ?thesis by (simp add: round64_def zero_of_def valof_def)
next
  case False
  define p :: real where "p = 2 powi ulp_exp x"
  define k where "k = rne (x / p)"
  have p0: "0 < p" by (simp add: p_def)
  have v: "valof (round64 s x) = of_int k * p"
    using round64_cases [of s x] assms False
    by (auto simp: is_finite_def k_def p_def)
  have "of_int k * p - x = (of_int k - x / p) * p"
    using p0 by (simp add: field_simps)
  then have "\<bar>of_int k * p - x\<bar> = \<bar>of_int k - x / p\<bar> * p"
    using p0 by (simp add: abs_mult)
  also have "\<dots> \<le> (1 / 2) * p"
    using rne_error [of "x / p"] p0 by (simp add: k_def mult_right_mono)
  also have "\<dots> \<le> (1 / 2) * (\<bar>x\<bar> / 2 ^ 52 + 1 / 2 ^ 1074)"
    using ulp_bound [OF False] by (simp add: p_def)
  also have "\<dots> = \<bar>x\<bar> / 2 ^ 53 + 1 / 2 ^ 1075"
    by simp
  finally show ?thesis by (simp add: v)
qed

lemma round64_crude:
  assumes "is_finite (round64 s x)"
  shows "\<bar>valof (round64 s x) - x\<bar> \<le> (\<bar>x\<bar> + 1) / 1000000000"
proof -
  have "\<bar>x\<bar> / 2 ^ 53 \<le> \<bar>x\<bar> / 1000000000"
    by (rule divide_left_mono) simp_all
  moreover have "(1::real) / 2 ^ 1075 \<le> 1 / 1000000000"
    by (rule divide_left_mono) simp_all
  ultimately show ?thesis
    using round64_error [OF assms] by (simp add: add_divide_distrib)
qed

lemma round64_not_nan: "round64 s x \<noteq> NaN"
  by (simp add: round64_def Let_def inf_of_def zero_of_def)

lemma fadd_finite:
  assumes "is_finite (fadd a b)"
  shows "is_finite a \<and> is_finite b \<and>
         \<bar>valof (fadd a b) - (valof a + valof b)\<bar> \<le> (\<bar>valof a + valof b\<bar> + 1) / 1000000000"
proof -
  have fin: "is_finite a \<and> is_finite b"
    using assms by (cases a; cases b) (simp_all add: is_finite_def arith_defs)
  show ?thesis
  proof (cases "is_zero a \<and> is_zero b")
    case True
    then show ?thesis
      using fin by (auto simp: arith_defs)
  next
    case False
    then have e: "fadd a b = round64 (valof a + valof b < 0) (valof a + valof b)"
      using fin by (cases a; cases b) (auto simp: is_finite_def fadd_def is_nan_def is_inf_def)
    show ?thesis
      using fin assms round64_crude [of "valof a + valof b < 0" "valof a + valof b"]
      by (simp add: e)
  qed
qed

lemma fmul_finite:
  assumes "is_finite (fmul a b)"
  shows "is_finite a \<and> is_finite b \<and>
         \<bar>valof (fmul a b) - valof a * valof b\<bar> \<le> (\<bar>valof a * valof b\<bar> + 1) / 1000000000"
proof -
  have fin: "is_finite a \<and> is_finite b"
    using assms by (cases a; cases b) (auto simp: is_finite_def arith_defs split: if_splits)
  then have e: "fmul a b = round64 (signbit a \<noteq> signbit b) (valof a * valof b)"
    by (cases a; cases b) (simp_all add: is_finite_def fmul_def is_nan_def is_inf_def)
  show ?thesis
    using fin assms round64_crude [of "signbit a \<noteq> signbit b" "valof a * valof b"]
    by (simp add: e)
qed

lemma fle_fabs:
  assumes "fle (fabs t) (Fin c)"
  shows "is_finite t \<and> \<bar>valof t\<bar> \<le> c"
  using assms by (cases t) (simp_all add: is_finite_def arith_defs)

lemma fsub_one_finite:
  assumes "is_finite (fsub d (Fin 1))"
  shows "is_finite d \<and>
         \<bar>valof (fsub d (Fin 1)) - (valof d - 1)\<bar> \<le> (\<bar>valof d - 1\<bar> + 1) / 1000000000"
proof -
  have n: "fneg (Fin 1) = Fin (- 1)" by (simp add: fneg_def)
  have "valof (Fin (- 1)) = - 1" by (simp add: valof_def)
  then show ?thesis
    using fadd_finite [of d "Fin (- 1)"] assms by (simp add: fsub_def n)
qed

lemma dirsq_close:
  assumes "fle (fabs (fsub (dirsq_of (dx, dy, dz)) (Fin 1))) lit_1_0e_5"
  shows "finite3 (dx, dy, dz) \<and>
         \<bar>(valof dx)\<^sup>2 + (valof dy)\<^sup>2 + (valof dz)\<^sup>2 - 1\<bar> \<le> 19 / 1000000"
proof -
  define a where "a = fmul dx dx"
  define b where "b = fmul dy dy"
  define c where "c = fmul dz dz"
  define s1 where "s1 = fadd a b"
  define D where "D = fadd s1 c"
  define t where "t = fsub D (Fin 1)"
  have D: "dirsq_of (dx, dy, dz) = D"
    by (simp add: dirsq_of_def D_def s1_def a_def b_def c_def)
  from assms have "fle (fabs t) (Fin (5902958103587057 / 2 ^ 69))"
    by (simp add: D t_def lit_1_0e_5)
  from fle_fabs [OF this] have t: "is_finite t" "\<bar>valof t\<bar> \<le> 5902958103587057 / 2 ^ 69"
    by simp_all
  from fsub_one_finite [of D] t(1)
  have Df: "is_finite D" and Dt: "\<bar>valof t - (valof D - 1)\<bar> \<le> (\<bar>valof D - 1\<bar> + 1) / 1000000000"
    by (simp_all add: t_def)
  from fadd_finite [of s1 c] Df
  have s1f: "is_finite s1" and cf: "is_finite c"
    and Ds: "\<bar>valof D - (valof s1 + valof c)\<bar> \<le> (\<bar>valof s1 + valof c\<bar> + 1) / 1000000000"
    by (simp_all add: D_def)
  from fadd_finite [of a b] s1f
  have af: "is_finite a" and bf: "is_finite b"
    and sa: "\<bar>valof s1 - (valof a + valof b)\<bar> \<le> (\<bar>valof a + valof b\<bar> + 1) / 1000000000"
    by (simp_all add: s1_def)
  from fmul_finite [of dx dx] af
  have xf: "is_finite dx" and ax: "\<bar>valof a - valof dx * valof dx\<bar> \<le> (\<bar>valof dx * valof dx\<bar> + 1) / 1000000000"
    by (simp_all add: a_def)
  from fmul_finite [of dy dy] bf
  have yf: "is_finite dy" and bx: "\<bar>valof b - valof dy * valof dy\<bar> \<le> (\<bar>valof dy * valof dy\<bar> + 1) / 1000000000"
    by (simp_all add: b_def)
  from fmul_finite [of dz dz] cf
  have zf: "is_finite dz" and cx: "\<bar>valof c - valof dz * valof dz\<bar> \<le> (\<bar>valof dz * valof dz\<bar> + 1) / 1000000000"
    by (simp_all add: c_def)
  define X where "X = valof dx * valof dx"
  define Y where "Y = valof dy * valof dy"
  define Z where "Z = valof dz * valof dz"
  define u where "u = valof s1 + valof c"
  define w where "w = valof a + valof b"
  have pos: "0 \<le> X" "0 \<le> Y" "0 \<le> Z"
    by (simp_all add: X_def Y_def Z_def)
  have tau: "(5902958103587057 / 2 ^ 69 :: real) \<le> 10000001 / 1000000000000"
    by simp
  have A: "X - (X + 1) / 1000000000 \<le> valof a" "valof a \<le> X + (X + 1) / 1000000000"
    using ax pos(1) unfolding X_def [symmetric] by linarith+
  have B: "Y - (Y + 1) / 1000000000 \<le> valof b" "valof b \<le> Y + (Y + 1) / 1000000000"
    using bx pos(2) unfolding Y_def [symmetric] by linarith+
  have C: "Z - (Z + 1) / 1000000000 \<le> valof c" "valof c \<le> Z + (Z + 1) / 1000000000"
    using cx pos(3) unfolding Z_def [symmetric] by linarith+
  have tv: "\<bar>valof t\<bar> \<le> 10000001 / 1000000000000"
    using t(2) tau by (rule order_trans)
  have D1: "\<bar>valof D - 1\<bar> \<le> 11 / 1000000"
    using tv Dt by argo
  have U: "1 - 12 / 1000000 \<le> u" "u \<le> 1 + 12 / 1000000"
    using D1 Ds unfolding u_def [symmetric] by argo+
  have W: "w - (\<bar>w\<bar> + 1) / 1000000000 \<le> valof s1" "valof s1 \<le> w + (\<bar>w\<bar> + 1) / 1000000000"
    using sa unfolding w_def [symmetric] by argo+
  have "\<bar>X + Y + Z - 1\<bar> \<le> 19 / 1000000"
    using A B C U W pos unfolding u_def w_def by argo
  then show ?thesis
    using xf yf zf by (simp add: finite3_def X_def Y_def Z_def power2_eq_square)
qed

section \<open>The code's tests against the stated validity\<close>

lemma rne_nonneg: "0 \<le> r \<Longrightarrow> 0 \<le> rne r"
  by (auto simp: rne_def Let_def)

lemma round64_nonneg:
  assumes "0 \<le> x"
  shows "round64 False x = PInf \<or> (\<exists>y. round64 False x = Fin y \<and> 0 \<le> y)"
proof -
  have "0 \<le> of_int (rne (x / 2 powi ulp_exp x)) * (2::real) powi ulp_exp x"
    using assms by (intro mult_nonneg_nonneg) (simp_all add: rne_nonneg)
  with assms show ?thesis
    by (auto simp: round64_def Let_def inf_of_def zero_of_def)
qed

lemma fsqrt_sign:
  "fsqrt a = NaN \<or> fsqrt a = PInf \<or> fsqrt a = NegZero \<or> (\<exists>y. fsqrt a = Fin y \<and> 0 \<le> y)"
proof (cases a)
  case (Fin r)
  then show ?thesis
    using round64_nonneg [of "sqrt r"] by (auto simp: fsqrt_def)
qed (simp_all add: fsqrt_def)

lemma fsqrt_zero_or_positive:
  "\<not> is_nan (fsqrt a) \<Longrightarrow> feq (fsqrt a) (Fin 0) \<longleftrightarrow> \<not> fgt (fsqrt a) (Fin 0)"
  using fsqrt_sign [of a]
  by (auto simp: feq_def fgt_def is_nan_def is_inf_def valof_def)

lemma length_zero_or_positive:
  "\<not> is_nan (momentum_length px py pz) \<Longrightarrow>
   feq (momentum_length px py pz) (Fin 0) \<longleftrightarrow> \<not> fgt (momentum_length px py pz) (Fin 0)"
  unfolding momentum_length_def by (rule fsqrt_zero_or_positive)

lemma nan_propagates:
  "fdiv a NaN = NaN" "fmul NaN b = NaN" "fadd NaN b = NaN" "fadd a NaN = NaN"
  by (simp_all add: fdiv_def fmul_def fadd_def is_nan_def)

lemma fabs_nan: "is_nan (fabs a) \<longleftrightarrow> is_nan a"
  by (cases a) (simp_all add: fabs_def is_nan_def)

lemma fsub_one_nan: "is_nan (fsub d (Fin 1)) \<longleftrightarrow> is_nan d"
proof (cases d)
  case (Fin r)
  then show ?thesis
    using round64_not_nan [of "r + - 1 < 0" "r + - 1"]
    by (simp add: fsub_def fneg_def fadd_def is_nan_def is_inf_def is_zero_def valof_def)
qed (simp_all add: fsub_def fneg_def fadd_def is_nan_def is_inf_def is_zero_def valof_def
    signbit_def round64_not_nan)

lemma fabs_fsub_nan: "is_nan (fabs (fsub d (Fin 1))) \<longleftrightarrow> is_nan d"
  by (simp add: fabs_nan fsub_one_nan)

lemma fle_iff_not_fgt: "\<not> is_nan a \<Longrightarrow> \<not> is_nan b \<Longrightarrow> fle a b \<longleftrightarrow> \<not> fgt a b"
  by (simp add: fle_def)

lemma lit_not_nan: "\<not> is_nan lit_1_0e_5"
  by (simp add: lit_1_0e_5 is_nan_def)

text \<open>The acceptance of the code against the validity of the specification.\<close>

lemma accepts_characterisation:
  "accepts px py pz \<longleftrightarrow>
     spec_valid px py pz \<or>
     (is_nan (dirsq_of (normalized px py pz)) \<and> \<not> feq (momentum_length px py pz) (Fin 0))"
proof (cases "is_nan (dirsq_of (normalized px py pz))")
  case True
  then have n: "is_nan (fabs (fsub (dirsq_of (normalized px py pz)) (Fin 1)))"
    by (simp add: fabs_fsub_nan)
  then have "\<not> fgt (fabs (fsub (dirsq_of (normalized px py pz)) (Fin 1))) lit_1_0e_5"
    and "\<not> fle (fabs (fsub (dirsq_of (normalized px py pz)) (Fin 1))) lit_1_0e_5"
    by (simp_all add: fgt_def fle_def)
  with True show ?thesis
    by (simp add: accepts_def skips_zero_def skips_not_normalized_def spec_valid_def arith_values)
next
  case False
  have len: "\<not> is_nan (momentum_length px py pz)"
  proof
    assume "is_nan (momentum_length px py pz)"
    then have "dirsq_of (normalized px py pz) = NaN"
      by (simp add: normalized_def dirsq_of_def Let_def is_nan_def nan_propagates)
    with False show False by (simp add: is_nan_def)
  qed
  have "\<not> is_nan (fabs (fsub (dirsq_of (normalized px py pz)) (Fin 1)))"
    using False by (simp add: fabs_fsub_nan)
  then show ?thesis
    using False length_zero_or_positive [OF len] lit_not_nan
    by (auto simp: accepts_def skips_zero_def skips_not_normalized_def spec_valid_def arith_values
        fle_iff_not_fgt)
qed

lemma spec_valid_accepts: "spec_valid px py pz \<Longrightarrow> accepts px py pz"
  by (simp add: accepts_characterisation)

lemma magnitude_close:
  assumes "fle (fabs (fsub (dirsq_of d) (Fin 1))) lit_1_0e_5"
  shows "finite3 d \<and> \<bar>magnitude d - 1\<bar> \<le> 1 / 100000"
proof -
  obtain dx dy dz where d: "d = (dx, dy, dz)"
    by (cases d) auto
  define S where "S = (valof dx)\<^sup>2 + (valof dy)\<^sup>2 + (valof dz)\<^sup>2"
  from dirsq_close [of dx dy dz] assms
  have f: "finite3 (dx, dy, dz)" and S: "\<bar>S - 1\<bar> \<le> 19 / 1000000"
    by (simp_all add: d S_def)
  have S0: "0 \<le> S"
    by (simp add: S_def)
  have "(99999 / 100000 :: real)\<^sup>2 = 9999800001 / 10000000000"
    by (simp add: power2_eq_square)
  then have "(99999 / 100000 :: real)\<^sup>2 \<le> S"
    using S by argo
  then have lo: "99999 / 100000 \<le> sqrt S"
    by (rule real_le_rsqrt)
  have "(100001 / 100000 :: real)\<^sup>2 = 10000200001 / 10000000000"
    by (simp add: power2_eq_square)
  then have "S \<le> (100001 / 100000 :: real)\<^sup>2"
    using S by argo
  then have hi: "sqrt S \<le> 100001 / 100000"
    by (intro real_le_lsqrt) simp_all
  from lo hi have "\<bar>sqrt S - 1\<bar> \<le> 1 / 100000"
    by argo
  with f show ?thesis
    by (simp add: d magnitude_def S_def)
qed

section \<open>The loop as a fold over the complete records\<close>

declare read_loop.simps [simp del] parsed_records.simps [simp del]

lemma fscanf7_record:
  "fscanf7 (Num a # Num b # Num c # Num d # Num e # Num f # Num g # rest) =
     (7, [a, b, c, d, e, f, g], rest)"
  by (simp add: fscanf7_def Let_def eval_nat_numeral)

lemma scan_lf_values: "length (fst (scan_lf n f)) \<le> n"
  by (induction n f rule: scan_lf.induct) (simp_all add: Let_def)

lemma scan_lf_full:
  "length (fst (scan_lf n f)) = n \<Longrightarrow> f = map Num (fst (scan_lf n f)) @ snd (scan_lf n f)"
  by (induction n f rule: scan_lf.induct) (simp_all add: Let_def)

lemma scan_lf_app:
  "scan_lf (length vals) (map Num vals @ rest) = (vals, rest)"
  by (induction vals) (simp_all add: Let_def)

lemma fscanf7_seven:
  assumes "fst (fscanf7 f) = 7"
  shows "length (fst (snd (fscanf7 f))) = 7"
    and "f = map Num (fst (snd (fscanf7 f))) @ snd (snd (fscanf7 f))"
proof -
  show l: "length (fst (snd (fscanf7 f))) = 7"
    using assms by (simp add: fscanf7_def Let_def split: if_splits)
  then have "length (fst (scan_lf 7 f)) = 7"
    by (simp add: fscanf7_def Let_def)
  from scan_lf_full [OF this] show "f = map Num (fst (snd (fscanf7 f))) @ snd (snd (fscanf7 f))"
    by (simp add: fscanf7_def Let_def)
qed

lemma fscanf7_app:
  "length vals = 7 \<Longrightarrow> fscanf7 (map Num vals @ rest) = (7, vals, rest)"
  using scan_lf_app [of vals rest] by (auto simp: fscanf7_def Let_def)

lemma length7:
  "length vals = 7 \<Longrightarrow> \<exists>a b c d e f g. vals = [a, b, c, d, e, f, g]"
  by (auto simp: length_Suc_conv eval_nat_numeral)

lemma read_loop_stop: "fst (fscanf7 f) \<noteq> 7 \<Longrightarrow> read_loop f s = s"
  by (simp add: read_loop.simps [of f] Let_def)

lemma read_loop_step:
  "length vals = 7 \<Longrightarrow> read_loop (map Num vals @ rest) s = read_loop rest (body_on vals s)"
  by (subst read_loop.simps) (simp add: fscanf7_app Let_def)

lemma parsed_records_stop: "fst (fscanf7 f) \<noteq> 7 \<Longrightarrow> parsed_records f = []"
  by (simp add: parsed_records.simps [of f] Let_def)

lemma parsed_records_step:
  "length vals = 7 \<Longrightarrow> parsed_records (map Num vals @ rest) = vals # parsed_records rest"
  by (subst parsed_records.simps) (simp add: fscanf7_app Let_def)

lemma parsed_records_stream_of:
  "\<forall>r \<in> set recs. length r = 7 \<Longrightarrow> fst (fscanf7 tail) \<noteq> 7 \<Longrightarrow>
   parsed_records (stream_of recs @ tail) = recs"
  by (induction recs) (simp_all add: stream_of_def parsed_records_stop parsed_records_step)

lemma read_loop_stream_of:
  "\<forall>r \<in> set recs. length r = 7 \<Longrightarrow> fst (fscanf7 tail) \<noteq> 7 \<Longrightarrow>
   read_loop (stream_of recs @ tail) s = fold body_on recs s"
  by (induction recs arbitrary: s) (simp_all add: stream_of_def read_loop_stop read_loop_step)

lemma stream_of_parsed_records:
  "\<exists>tail. f = stream_of (parsed_records f) @ tail \<and> fst (fscanf7 tail) \<noteq> 7"
proof (induction f rule: parsed_records.induct)
  case (1 f)
  show ?case
  proof (cases "fst (fscanf7 f) = 7")
    case True
    define vals where "vals = fst (snd (fscanf7 f))"
    define rest where "rest = snd (snd (fscanf7 f))"
    from "1" [OF refl True] obtain tail where
      t: "rest = stream_of (parsed_records rest) @ tail" "fst (fscanf7 tail) \<noteq> 7"
      unfolding rest_def by blast
    have f: "f = map Num vals @ rest"
      using fscanf7_seven(2) [OF True] by (simp add: vals_def rest_def)
    have p: "parsed_records f = vals # parsed_records rest"
      using True by (subst parsed_records.simps) (simp add: Let_def vals_def rest_def)
    have "f = stream_of (parsed_records f) @ tail"
      unfolding p using t(1) by (subst f) (simp add: stream_of_def)
    with t(2) show ?thesis by blast
  next
    case False
    then show ?thesis
      by (auto simp: parsed_records_stop stream_of_def)
  qed
qed

lemma parsed_records_length: "r \<in> set (parsed_records f) \<Longrightarrow> length r = 7"
proof (induction f rule: parsed_records.induct)
  case (1 f)
  show ?case
  proof (cases "fst (fscanf7 f) = 7")
    case True
    with "1" fscanf7_seven(1) [OF True] show ?thesis
      by (subst (asm) (2) parsed_records.simps) (auto simp: Let_def)
  next
    case False
    with "1.prems" show ?thesis by (simp add: parsed_records_stop)
  qed
qed

lemma read_loop_fold: "read_loop f s = fold body_on (parsed_records f) s"
proof -
  obtain tail where t: "f = stream_of (parsed_records f) @ tail" "fst (fscanf7 tail) \<noteq> 7"
    using stream_of_parsed_records by blast
  have "read_loop (stream_of (parsed_records f) @ tail) s = fold body_on (parsed_records f) s"
    by (rule read_loop_stream_of) (use t(2) parsed_records_length in auto)
  with t(1) show ?thesis by simp
qed

lemma added_particles_append:
  "added_particles (xs @ ys) = added_particles xs @ added_particles ys"
  by (induction xs rule: added_particles.induct) simp_all

lemma count_skips_append: "count_skips (xs @ ys) = count_skips xs + count_skips ys"
  by (simp add: count_skips_def)

lemma accepts_rec_length: "accepts_rec r \<Longrightarrow> length r = 7"
  by (simp add: accepts_rec_def split: list.splits)

lemma emitted_twice:
  "emitted a b c d e f g (emitted a' b' c' d' e' f' g' p) = emitted a b c d e f g p"
  by (simp add: emitted_def)

lemma emitted_rec_twice:
  "length r' = 7 \<Longrightarrow> emitted_rec (emitted_rec p r) r' = emitted_rec p r'"
proof -
  assume "length r' = 7"
  then obtain a b c d e f g where r': "r' = [a, b, c, d, e, f, g]"
    using length7 by blast
  show ?thesis
  proof (cases "length r = 7")
    case True
    then obtain a' b' c' d' e' f' g' where "r = [a', b', c', d', e', f', g']"
      using length7 by blast
    with r' show ?thesis by (simp add: emitted_rec_def emitted_twice)
  next
    case False
    then have "emitted_rec p r = p"
      by (auto simp: emitted_rec_def split: list.splits)
    then show ?thesis by simp
  qed
qed

lemma body_on_cases:
  "body_on r s =
     (if length r \<noteq> 7 then s
      else if accepts_rec r then
        s\<lparr>particle := emitted_rec (particle s) r,
          trace := trace s @
            [Printf (Debugging_dirsq (dirsq_of (normalized (r ! 3) (r ! 4) (r ! 5)))),
             Mcpl_add_particle (emitted_rec (particle s) r),
             Printf (Added (sint (ind s)))],
          ind := ind s + 1\<rparr>
      else if skips_zero (r ! 3) (r ! 4) (r ! 5) then
        s\<lparr>trace := trace s @ [Printf (Skipping_zero (sint (ind s)))], ind := ind s + 1\<rparr>
      else
        s\<lparr>trace := trace s @
            [Printf (Debugging_dirsq (dirsq_of (normalized (r ! 3) (r ! 4) (r ! 5)))),
             Printf (Skipping_not_normalized (sint (ind s)))],
          ind := ind s + 1\<rparr>)"
proof (cases "length r = 7")
  case True
  then obtain a b c d e f g where "r = [a, b, c, d, e, f, g]"
    using length7 by blast
  then show ?thesis
    by (simp add: body_on_def loop_body_cases accepts_rec_def accepts_def emitted_rec_def)
next
  case False
  then show ?thesis
    by (auto simp: body_on_def split: list.splits)
qed

lemma body_on_trace:
  "added_particles (trace (body_on r s)) =
     added_particles (trace s) @ (if accepts_rec r then [emitted_rec (particle s) r] else [])"
  "particle (body_on r s) = (if accepts_rec r then emitted_rec (particle s) r else particle s)"
  "length r = 7 \<Longrightarrow>
   count_skips (trace (body_on r s)) = count_skips (trace s) + (if accepts_rec r then 0 else 1)"
  using accepts_rec_length [of r]
  by (auto simp: body_on_cases [of r s] added_particles_append count_skips_def)

lemma fold_body_added:
  "added_particles (trace (fold body_on recs s)) =
     added_particles (trace s) @ map (emitted_rec (particle s)) (filter accepts_rec recs)"
proof (induction recs arbitrary: s)
  case Nil
  show ?case by simp
next
  case (Cons r recs)
  have m: "map (emitted_rec (emitted_rec (particle s) r)) (filter accepts_rec recs) =
           map (emitted_rec (particle s)) (filter accepts_rec recs)"
    by (rule map_cong) (simp_all add: emitted_rec_twice accepts_rec_length)
  show ?case
    by (simp add: Cons.IH body_on_trace m)
qed

lemma fold_body_skips:
  "\<forall>r \<in> set recs. length r = 7 \<Longrightarrow>
   count_skips (trace (fold body_on recs s)) =
     count_skips (trace s) + length (filter (\<lambda>r. \<not> accepts_rec r) recs)"
proof (induction recs arbitrary: s)
  case Nil
  show ?case by simp
next
  case (Cons r recs)
  then show ?case
    by (simp add: body_on_trace)
qed

lemma body_on_extends:
  "\<exists>es. trace (body_on r s) = trace s @ es \<and> list_all is_loop_event es"
  by (simp add: body_on_cases [of r s])

lemma fold_body_extends:
  "\<exists>es. trace (fold body_on recs s) = trace s @ es \<and> list_all is_loop_event es"
proof (induction recs arbitrary: s)
  case Nil
  show ?case by simp
next
  case (Cons r recs)
  obtain es where es: "trace (body_on r s) = trace s @ es" "list_all is_loop_event es"
    using body_on_extends by blast
  obtain es' where es': "trace (fold body_on recs (body_on r s)) = trace (body_on r s) @ es'"
    "list_all is_loop_event es'"
    using Cons.IH by blast
  have "trace (fold body_on (r # recs) s) = trace s @ (es @ es')"
    using es(1) es'(1) by simp
  moreover have "list_all is_loop_event (es @ es')"
    using es(2) es'(2) by simp
  ultimately show ?case by blast
qed

lemma main_runs:
  "length argv = 3 \<Longrightarrow> fs (argv ! 1) = Some f \<Longrightarrow>
   main fs p0 argv =
     (0, trace (fold body_on (parsed_records f) (state0 p0 (argv ! 2))) @
         [Mcpl_closeandgzip_outfile, Fclose])"
  by (simp add: main_def Let_def read_loop_fold state0_def)

lemma main_usage:
  "length argv \<noteq> 3 \<Longrightarrow>
   main fs p0 argv = (1, [Printf (Usage (case argv of [] \<Rightarrow> None | a # _ \<Rightarrow> Some a))])"
  by (simp add: main_def)

lemma main_no_input:
  "length argv = 3 \<Longrightarrow> fs (argv ! 1) = None \<Longrightarrow>
   main fs p0 argv = (1, [Printf (Error_opening (argv ! 1))])"
  by (simp add: main_def Let_def)

lemma feq_zero_iff: "feq a (Fin 0) \<longleftrightarrow> is_zero a"
  by (cases a) (simp_all add: arith_defs)

lemma fmul_zero_self: "is_zero a \<Longrightarrow> fmul a a = Fin 0"
  by (auto simp: arith_defs arith_values)

lemma skips_zero_momentum:
  assumes "is_zero px" "is_zero py" "is_zero pz"
  shows "skips_zero px py pz"
proof -
  have "momentum_length px py pz = Fin 0"
    by (simp add: momentum_length_def fmul_zero_self assms)
      (simp add: arith_defs arith_values)
  then show ?thesis
    by (simp add: skips_zero_def arith_values) (simp add: arith_defs)
qed





lemma loop_event_cases:
  "is_loop_event e \<Longrightarrow>
   \<not> is_header_call e \<and> e \<noteq> Mcpl_closeandgzip_outfile \<and> e \<noteq> Fclose"
  by (cases e) simp_all

lemma loop_events_no_header: "list_all is_loop_event es \<Longrightarrow> filter is_header_call es = []"
  by (induction es) (simp_all add: loop_event_cases)

lemma loop_events_no_close:
  "list_all is_loop_event es \<Longrightarrow>
   count_list es Mcpl_closeandgzip_outfile = 0 \<and> count_list es Fclose = 0"
  by (induction es) (auto dest: loop_event_cases)

lemma main_header_calls:
  assumes "length argv = 3" and "fs (argv ! 1) = Some f"
  shows "filter is_header_call (snd (main fs p0 argv)) =
           [Mcpl_hdr_set_srcname (argv ! 2), Mcpl_hdr_add_comment comment_text]"
proof -
  obtain es where es:
    "trace (fold body_on (parsed_records f) (state0 p0 (argv ! 2))) =
       trace (state0 p0 (argv ! 2)) @ es" "list_all is_loop_event es"
    using fold_body_extends by blast
  show ?thesis
    by (simp add: main_runs [of argv fs f p0, OF assms] es loop_events_no_header)
      (simp add: state0_def)
qed

lemma emitted_fields:
  "position (emitted hit_x hit_y hit_z px py pz kinetic_energy p) = (hit_x, hit_y, hit_z)"
  "direction (emitted hit_x hit_y hit_z px py pz kinetic_energy p) = normalized px py pz"
  "ekin (emitted hit_x hit_y hit_z px py pz kinetic_energy p) = kinetic_energy"
  "pdgcode (emitted hit_x hit_y hit_z px py pz kinetic_energy p) = 2112"
  "weight (emitted hit_x hit_y hit_z px py pz kinetic_energy p) = Fin 1"
  "mcpl_particle.more (emitted hit_x hit_y hit_z px py pz kinetic_energy p) = mcpl_particle.more p"
  by (simp_all add: emitted_def)

lemma normalized_components:
  "normalized px py pz =
     (fdiv px (momentum_length px py pz), fdiv py (momentum_length px py pz),
      fdiv pz (momentum_length px py pz))"
  by (simp add: normalized_def Let_def)

lemma loop_body_accepts:
  "accepts px py pz \<Longrightarrow>
   added_particles (trace (loop_body hit_x hit_y hit_z px py pz kinetic_energy s)) =
     added_particles (trace s) @ [emitted hit_x hit_y hit_z px py pz kinetic_energy (particle s)]"
  by (simp add: loop_body_cases accepts_def added_particles_append split: if_splits)

section \<open>The concrete runs, evaluated\<close>

lemma momentum_unit_x: "momentum_length (Fin 1) (Fin 0) (Fin 0) = Fin 1"
  by (simp add: momentum_length_def arith_defs arith_values)

lemma normalized_unit_x: "normalized (Fin 1) (Fin 0) (Fin 0) = (Fin 1, Fin 0, Fin 0)"
  by (simp add: normalized_def momentum_unit_x) (simp add: arith_defs arith_values)

lemma dirsq_unit_x: "dirsq_of (Fin 1, Fin 0, Fin 0) = Fin 1"
  by (simp add: dirsq_of_def arith_defs arith_values)

lemma accepts_unit_x: "accepts (Fin 1) (Fin 0) (Fin 0)"
  by (simp add: accepts_def skips_zero_def skips_not_normalized_def momentum_unit_x
      normalized_unit_x dirsq_unit_x arith_values)
    (simp add: arith_defs arith_values)

lemma spec_valid_unit_x: "spec_valid (Fin 1) (Fin 0) (Fin 0)"
  by (simp add: spec_valid_def momentum_unit_x normalized_unit_x dirsq_unit_x arith_values)
    (simp add: arith_defs arith_values)

lemma not_accepts_at_rest: "\<not> accepts (Fin 0) (Fin 0) (Fin 0)"
  by (simp add: accepts_def skips_zero_momentum is_zero_def)

lemma momentum_nan: "momentum_length NaN (Fin 0) (Fin 0) = NaN"
  by (simp add: momentum_length_def arith_defs)

lemma normalized_nan: "normalized NaN (Fin 0) (Fin 0) = (NaN, NaN, NaN)"
  by (simp add: normalized_def momentum_nan) (simp add: arith_defs)

lemma dirsq_nan: "dirsq_of (NaN, NaN, NaN) = NaN"
  by (simp add: dirsq_of_def arith_defs)

lemma accepts_nan: "accepts NaN (Fin 0) (Fin 0)"
  by (simp add: accepts_def skips_zero_def skips_not_normalized_def momentum_nan
      normalized_nan dirsq_nan)
    (simp add: arith_defs)

lemma not_spec_valid_nan: "\<not> spec_valid NaN (Fin 0) (Fin 0)"
  by (simp add: spec_valid_def momentum_nan) (simp add: arith_defs)

lemma momentum_inf: "momentum_length PInf (Fin 0) (Fin 0) = PInf"
  by (simp add: momentum_length_def arith_defs arith_values)

lemma normalized_inf: "normalized PInf (Fin 0) (Fin 0) = (NaN, Fin 0, Fin 0)"
  by (simp add: normalized_def momentum_inf) (simp add: arith_defs)

lemma dirsq_inf: "dirsq_of (NaN, Fin 0, Fin 0) = NaN"
  by (simp add: dirsq_of_def arith_defs)

lemma accepts_inf: "accepts PInf (Fin 0) (Fin 0)"
  by (simp add: accepts_def skips_zero_def skips_not_normalized_def momentum_inf
      normalized_inf dirsq_inf)
    (simp add: arith_defs arith_values)

lemma not_spec_valid_inf: "\<not> spec_valid PInf (Fin 0) (Fin 0)"
  by (simp add: spec_valid_def normalized_inf dirsq_inf) (simp add: arith_defs)

lemma fscanf7_Nil: "fscanf7 [] = (- 1, [], [])"
  by (simp add: fscanf7_def eval_nat_numeral)

lemma fscanf7_cut: "fscanf7 [Num (Fin 2), Junk] = (1, [Fin 2], [Junk])"
  by (simp add: fscanf7_def eval_nat_numeral)

lemma demo_lengths:
  "length rec_unit_x = 7" "length rec_at_rest = 7" "length rec_nan = 7" "length rec_inf = 7"
  by (simp_all add: rec_unit_x_def rec_at_rest_def rec_nan_def rec_inf_def)

lemma parsed_demo_in:
  "parsed_records (stream_of [rec_unit_x, rec_at_rest]) = [rec_unit_x, rec_at_rest]"
  using parsed_records_stream_of [of "[rec_unit_x, rec_at_rest]" "[]"]
  by (simp add: demo_lengths fscanf7_Nil)

lemma parsed_demo_bad: "parsed_records (stream_of [rec_nan, rec_inf]) = [rec_nan, rec_inf]"
  using parsed_records_stream_of [of "[rec_nan, rec_inf]" "[]"]
  by (simp add: demo_lengths fscanf7_Nil)

lemma accepts_rec_demo:
  "accepts_rec rec_unit_x" "\<not> accepts_rec rec_at_rest" "accepts_rec rec_nan"
  "accepts_rec rec_inf"
  by (simp_all add: accepts_rec_def rec_unit_x_def rec_at_rest_def rec_nan_def rec_inf_def
      accepts_unit_x not_accepts_at_rest accepts_nan accepts_inf)

lemma emitted_rec_demo:
  "emitted_rec demo_p0 rec_unit_x =
     \<lparr>position = (Fin 0, Fin 0, Fin 0), pdgcode = 2112, ekin = Fin 5,
      direction = (Fin 1, Fin 0, Fin 0), weight = Fin 1\<rparr>"
  "emitted_rec demo_p0 rec_nan =
     \<lparr>position = (Fin 0, Fin 0, Fin 0), pdgcode = 2112, ekin = Fin 1,
      direction = (NaN, NaN, NaN), weight = Fin 1\<rparr>"
  "emitted_rec \<lparr>position = a, pdgcode = b, ekin = c, direction = d, weight = e\<rparr> rec_inf =
     \<lparr>position = (Fin 0, Fin 0, Fin 0), pdgcode = 2112, ekin = Fin 1,
      direction = (NaN, Fin 0, Fin 0), weight = Fin 1\<rparr>"
  by (simp_all add: emitted_rec_def rec_unit_x_def rec_nan_def rec_inf_def emitted_def
      normalized_unit_x normalized_nan normalized_inf demo_p0_def)

lemma demo_args:
  "length demo_argv = 3" "demo_argv ! Suc 0 = ''in.txt''" "demo_argv ! 2 = ''out.mcpl''"
  "length bad_argv = 3" "bad_argv ! Suc 0 = ''bad.txt''" "bad_argv ! 2 = ''out.mcpl''"
  "length cut_argv = 3" "cut_argv ! Suc 0 = ''cut.txt''" "cut_argv ! 2 = ''out.mcpl''"
  "length missing_argv = 3" "missing_argv ! Suc 0 = ''missing.txt''"
  by (simp_all add: demo_argv_def bad_argv_def cut_argv_def missing_argv_def)

lemma demo_files:
  "demo_fs ''in.txt'' = Some (stream_of [rec_unit_x, rec_at_rest])"
  "demo_fs ''bad.txt'' = Some (stream_of [rec_nan, rec_inf])"
  "demo_fs ''cut.txt'' = Some (stream_of [rec_unit_x] @ [Num (Fin 2), Junk])"
  "demo_fs ''missing.txt'' = None"
  by (simp_all add: demo_fs_def)

lemma body_on_unit_x:
  "body_on rec_unit_x s =
     s\<lparr>particle := emitted_rec (particle s) rec_unit_x,
       trace := trace s @
         [Printf (Debugging_dirsq (Fin 1)),
          Mcpl_add_particle (emitted_rec (particle s) rec_unit_x),
          Printf (Added (sint (ind s)))],
       ind := ind s + 1\<rparr>"
proof -
  have "dirsq_of (normalized (rec_unit_x ! 3) (rec_unit_x ! 4) (rec_unit_x ! 5)) = Fin 1"
    by (simp add: rec_unit_x_def normalized_unit_x dirsq_unit_x)
  then show ?thesis
    by (simp add: body_on_cases [of rec_unit_x s] demo_lengths accepts_rec_demo)
qed

lemma body_on_at_rest:
  "body_on rec_at_rest s =
     s\<lparr>trace := trace s @ [Printf (Skipping_zero (sint (ind s)))], ind := ind s + 1\<rparr>"
proof -
  have "skips_zero (rec_at_rest ! 3) (rec_at_rest ! 4) (rec_at_rest ! 5)"
    by (simp add: rec_at_rest_def skips_zero_momentum is_zero_def)
  then show ?thesis
    by (simp add: body_on_cases [of rec_at_rest s] demo_lengths accepts_rec_demo)
qed

lemma body_on_nan:
  "body_on rec_nan s =
     s\<lparr>particle := emitted_rec (particle s) rec_nan,
       trace := trace s @
         [Printf (Debugging_dirsq NaN),
          Mcpl_add_particle (emitted_rec (particle s) rec_nan),
          Printf (Added (sint (ind s)))],
       ind := ind s + 1\<rparr>"
proof -
  have "dirsq_of (normalized (rec_nan ! 3) (rec_nan ! 4) (rec_nan ! 5)) = NaN"
    by (simp add: rec_nan_def normalized_nan dirsq_nan)
  then show ?thesis
    by (simp add: body_on_cases [of rec_nan s] demo_lengths accepts_rec_demo)
qed

lemma body_on_inf:
  "body_on rec_inf s =
     s\<lparr>particle := emitted_rec (particle s) rec_inf,
       trace := trace s @
         [Printf (Debugging_dirsq NaN),
          Mcpl_add_particle (emitted_rec (particle s) rec_inf),
          Printf (Added (sint (ind s)))],
       ind := ind s + 1\<rparr>"
proof -
  have "dirsq_of (normalized (rec_inf ! 3) (rec_inf ! 4) (rec_inf ! 5)) = NaN"
    by (simp add: rec_inf_def normalized_inf dirsq_inf)
  then show ?thesis
    by (simp add: body_on_cases [of rec_inf s] demo_lengths accepts_rec_demo)
qed

lemma demo_trace:
  "main demo_fs demo_p0 demo_argv =
     (0, [Mcpl_create_outfile ''out.mcpl'', Mcpl_hdr_set_srcname ''out.mcpl'',
          Mcpl_hdr_add_comment ''Extracting Neutrons from the txt file'',
          Printf (Debugging_dirsq (Fin 1)),
          Mcpl_add_particle
            \<lparr>position = (Fin 0, Fin 0, Fin 0), pdgcode = 2112, ekin = Fin 5,
             direction = (Fin 1, Fin 0, Fin 0), weight = Fin 1\<rparr>,
          Printf (Added 0), Printf (Skipping_zero 1),
          Mcpl_closeandgzip_outfile, Fclose])"
proof -
  have r: "main demo_fs demo_p0 demo_argv =
     (0, trace (fold body_on [rec_unit_x, rec_at_rest] (state0 demo_p0 ''out.mcpl'')) @
         [Mcpl_closeandgzip_outfile, Fclose])"
    using main_runs [of demo_argv demo_fs "stream_of [rec_unit_x, rec_at_rest]" demo_p0]
    by (simp add: demo_args demo_files parsed_demo_in)
  show ?thesis
    unfolding r
    by (simp add: body_on_unit_x body_on_at_rest state0_def emitted_rec_demo comment_text_def)
qed

lemma cut_trace:
  "trace (body_on rec_unit_x (state0 demo_p0 ''out.mcpl'')) =
     [Mcpl_create_outfile ''out.mcpl'', Mcpl_hdr_set_srcname ''out.mcpl'',
      Mcpl_hdr_add_comment ''Extracting Neutrons from the txt file'',
      Printf (Debugging_dirsq (Fin 1)),
      Mcpl_add_particle
        \<lparr>position = (Fin 0, Fin 0, Fin 0), pdgcode = 2112, ekin = Fin 5,
         direction = (Fin 1, Fin 0, Fin 0), weight = Fin 1\<rparr>,
      Printf (Added 0)]"
  by (simp add: body_on_unit_x state0_def emitted_rec_demo comment_text_def)

lemma parsed_demo_cut:
  "parsed_records (stream_of [rec_unit_x] @ [Num (Fin 2), Junk]) = [rec_unit_x]"
  using parsed_records_stream_of [of "[rec_unit_x]" "[Num (Fin 2), Junk]"]
  by (simp add: demo_lengths fscanf7_cut)

lemma ulp_exp_2: "ulp_exp 2 = - 51"
  by (simp add: ulp_exp_def)

lemma round64_2: "round64 s 2 = Fin 2"
  by (simp add: round64_def ulp_exp_2 Let_def rne_numeral inf_of_def power_int_minus)

lemma ulp_exp_4: "ulp_exp 4 = - 50"
proof -
  have "\<lfloor>log 2 (4 :: real)\<rfloor> = 2"
    by (rule floor_log2_eq) simp_all
  then show ?thesis
    by (simp add: ulp_exp_def)
qed

lemma round64_4: "round64 s 4 = Fin 4"
  by (simp add: round64_def ulp_exp_4 Let_def rne_numeral inf_of_def power_int_minus)

lemma momentum_unit_y: "momentum_length (Fin 0) (Fin 2) (Fin 0) = Fin 2"
  by (simp add: momentum_length_def arith_defs arith_values round64_2 round64_4)

lemma normalized_unit_y: "normalized (Fin 0) (Fin 2) (Fin 0) = (Fin 0, Fin 1, Fin 0)"
  by (simp add: normalized_def momentum_unit_y) (simp add: arith_defs arith_values)

lemma dirsq_unit_y: "dirsq_of (Fin 0, Fin 1, Fin 0) = Fin 1"
  by (simp add: dirsq_of_def arith_defs arith_values)

lemma accepts_unit_y: "accepts (Fin 0) (Fin 2) (Fin 0)"
  by (simp add: accepts_def skips_zero_def skips_not_normalized_def momentum_unit_y
      normalized_unit_y dirsq_unit_y arith_values)
    (simp add: arith_defs arith_values)

lemma momentum_nan_y: "momentum_length (Fin 2) NaN (Fin 0) = NaN"
  by (simp add: momentum_length_def nan_propagates fsqrt_def)

lemma normalized_nan_y: "normalized (Fin 2) NaN (Fin 0) = (NaN, NaN, NaN)"
  by (simp add: normalized_def momentum_nan_y nan_propagates)

lemma accepts_nan_y: "accepts (Fin 2) NaN (Fin 0)"
  by (simp add: accepts_def skips_zero_def skips_not_normalized_def momentum_nan_y
      normalized_nan_y dirsq_nan)
    (simp add: arith_defs)

lemma mix_lengths: "length rec_unit_y = 7" "length rec_nan_y = 7"
  by (simp_all add: rec_unit_y_def rec_nan_y_def)

lemma mix_args: "length mix_argv = 3" "mix_argv ! Suc 0 = ''mix.txt''" "mix_argv ! 2 = ''out.mcpl''"
  by (simp_all add: mix_argv_def)

lemma parsed_mix: "parsed_records (stream_of [rec_unit_y, rec_nan_y]) = [rec_unit_y, rec_nan_y]"
  using parsed_records_stream_of [of "[rec_unit_y, rec_nan_y]" "[]"]
  by (simp add: mix_lengths fscanf7_Nil)

lemma accepts_rec_mix: "accepts_rec rec_unit_y" "accepts_rec rec_nan_y"
  by (simp_all add: accepts_rec_def rec_unit_y_def rec_nan_y_def accepts_unit_y accepts_nan_y)

lemma emitted_rec_mix:
  "emitted_rec \<lparr>position = a, pdgcode = b, ekin = c, direction = d, weight = e\<rparr> rec_unit_y =
     \<lparr>position = (Fin 3, Fin 4, Fin 5), pdgcode = 2112, ekin = Fin 7,
      direction = (Fin 0, Fin 1, Fin 0), weight = Fin 1\<rparr>"
  "emitted_rec \<lparr>position = a, pdgcode = b, ekin = c, direction = d, weight = e\<rparr> rec_nan_y =
     \<lparr>position = (Fin 3, Fin 4, Fin 5), pdgcode = 2112, ekin = Fin 7,
      direction = (NaN, NaN, NaN), weight = Fin 1\<rparr>"
  by (simp_all add: emitted_rec_def rec_unit_y_def rec_nan_y_def emitted_def normalized_unit_y
      normalized_nan_y)

lemma body_on_unit_y:
  "body_on rec_unit_y s =
     s\<lparr>particle := emitted_rec (particle s) rec_unit_y,
       trace := trace s @
         [Printf (Debugging_dirsq (Fin 1)),
          Mcpl_add_particle (emitted_rec (particle s) rec_unit_y),
          Printf (Added (sint (ind s)))],
       ind := ind s + 1\<rparr>"
proof -
  have "dirsq_of (normalized (rec_unit_y ! 3) (rec_unit_y ! 4) (rec_unit_y ! 5)) = Fin 1"
    by (simp add: rec_unit_y_def normalized_unit_y dirsq_unit_y)
  then show ?thesis
    by (simp add: body_on_cases [of rec_unit_y s] mix_lengths accepts_rec_mix)
qed

lemma body_on_nan_y:
  "body_on rec_nan_y s =
     s\<lparr>particle := emitted_rec (particle s) rec_nan_y,
       trace := trace s @
         [Printf (Debugging_dirsq NaN),
          Mcpl_add_particle (emitted_rec (particle s) rec_nan_y),
          Printf (Added (sint (ind s)))],
       ind := ind s + 1\<rparr>"
proof -
  have "dirsq_of (normalized (rec_nan_y ! 3) (rec_nan_y ! 4) (rec_nan_y ! 5)) = NaN"
    by (simp add: rec_nan_y_def normalized_nan_y dirsq_nan)
  then show ?thesis
    by (simp add: body_on_cases [of rec_nan_y s] mix_lengths accepts_rec_mix)
qed





text \<open>
  A record that is valid as the specification states it passes the two tests of the code,
  and the particle appended for it has a direction of finite components whose magnitude,
  as a real number, is within \<open>1e-5\<close> of 1.
\<close>

lemma valid_record_emission:
  assumes "spec_valid px py pz"
  shows "accepts px py pz \<and>
         (\<exists>p. added_particles (trace (loop_body hit_x hit_y hit_z px py pz kinetic_energy s)) =
               added_particles (trace s) @ [p] \<and>
             position p = (hit_x, hit_y, hit_z) \<and>
             direction p = (fdiv px (momentum_length px py pz),
                            fdiv py (momentum_length px py pz),
                            fdiv pz (momentum_length px py pz)) \<and>
             finite3 (direction p) \<and> \<bar>magnitude (direction p) - 1\<bar> \<le> 1 / 100000 \<and>
             ekin p = kinetic_energy \<and> pdgcode p = 2112 \<and> weight p = Fin 1 \<and>
             mcpl_particle.more p = mcpl_particle.more (particle s))"
proof -
  let ?p = "emitted hit_x hit_y hit_z px py pz kinetic_energy (particle s)"
  have a: "accepts px py pz"
    using assms by (rule spec_valid_accepts)
  have m: "finite3 (normalized px py pz) \<and> \<bar>magnitude (normalized px py pz) - 1\<bar> \<le> 1 / 100000"
    using assms by (intro magnitude_close) (simp add: spec_valid_def)
  show ?thesis
  proof (intro exI [of _ ?p] conjI)
    show "accepts px py pz"
      by (rule a)
    show "added_particles (trace (loop_body hit_x hit_y hit_z px py pz kinetic_energy s)) =
          added_particles (trace s) @ [?p]"
      using a by (rule loop_body_accepts)
    show "direction ?p = (fdiv px (momentum_length px py pz),
                          fdiv py (momentum_length px py pz),
                          fdiv pz (momentum_length px py pz))"
      by (simp only: emitted_fields normalized_components)
    show "finite3 (direction ?p)" and "\<bar>magnitude (direction ?p) - 1\<bar> \<le> 1 / 100000"
      using m by (simp_all only: emitted_fields)
  qed (simp_all only: emitted_fields)
qed

section \<open>The claims\<close>

subsection \<open>C1\<close>

text \<open>
  C1. The claim: a record is appended if and only if its momentum magnitude is greater
  than 0 and the squared magnitude of its normalized direction is within \<open>1.0e-5\<close> of
  \<open>1.0\<close>. The code skips a record when \<^verbatim>\<open>length == 0\<close> and when
  \<^verbatim>\<open>fabs(dirsq - 1.0) > 1.0e-5\<close>; both comparisons are false of a NaN, so a record whose
  \<^verbatim>\<open>dirsq\<close> is a NaN is appended. The run on \<^verbatim>\<open>bad.txt\<close> shows it: neither record is valid as
  the claim states it, and both are appended, with a direction that has NaN components.
  Lemma \<open>accepts_characterisation\<close> above says that these are the only records on which
  the code and the claim differ.
\<close>

theorem nan_direction_is_appended:
  "demo_fs (bad_argv ! 1) = Some (stream_of [rec_nan, rec_inf]) \<and>
   rec_nan = [Fin 0, Fin 0, Fin 0, NaN, Fin 0, Fin 0, Fin 1] \<and>
   rec_inf = [Fin 0, Fin 0, Fin 0, PInf, Fin 0, Fin 0, Fin 1] \<and>
   \<not> spec_valid NaN (Fin 0) (Fin 0) \<and> \<not> spec_valid PInf (Fin 0) (Fin 0) \<and>
   main demo_fs demo_p0 bad_argv =
     (0, [Mcpl_create_outfile ''out.mcpl'', Mcpl_hdr_set_srcname ''out.mcpl'',
          Mcpl_hdr_add_comment ''Extracting Neutrons from the txt file'',
          Printf (Debugging_dirsq NaN),
          Mcpl_add_particle
            \<lparr>position = (Fin 0, Fin 0, Fin 0), pdgcode = 2112, ekin = Fin 1,
             direction = (NaN, NaN, NaN), weight = Fin 1\<rparr>,
          Printf (Added 0),
          Printf (Debugging_dirsq NaN),
          Mcpl_add_particle
            \<lparr>position = (Fin 0, Fin 0, Fin 0), pdgcode = 2112, ekin = Fin 1,
             direction = (NaN, Fin 0, Fin 0), weight = Fin 1\<rparr>,
          Printf (Added 1),
          Mcpl_closeandgzip_outfile, Fclose])"
proof -
  have r: "main demo_fs demo_p0 bad_argv =
     (0, trace (fold body_on [rec_nan, rec_inf] (state0 demo_p0 ''out.mcpl'')) @
         [Mcpl_closeandgzip_outfile, Fclose])"
    using main_runs [of bad_argv demo_fs "stream_of [rec_nan, rec_inf]" demo_p0]
    by (simp add: demo_args demo_files parsed_demo_bad)
  have "main demo_fs demo_p0 bad_argv =
     (0, [Mcpl_create_outfile ''out.mcpl'', Mcpl_hdr_set_srcname ''out.mcpl'',
          Mcpl_hdr_add_comment ''Extracting Neutrons from the txt file'',
          Printf (Debugging_dirsq NaN),
          Mcpl_add_particle
            \<lparr>position = (Fin 0, Fin 0, Fin 0), pdgcode = 2112, ekin = Fin 1,
             direction = (NaN, NaN, NaN), weight = Fin 1\<rparr>,
          Printf (Added 0),
          Printf (Debugging_dirsq NaN),
          Mcpl_add_particle
            \<lparr>position = (Fin 0, Fin 0, Fin 0), pdgcode = 2112, ekin = Fin 1,
             direction = (NaN, Fin 0, Fin 0), weight = Fin 1\<rparr>,
          Printf (Added 1),
          Mcpl_closeandgzip_outfile, Fclose])"
    unfolding r
    by (simp add: body_on_nan body_on_inf state0_def emitted_rec_demo comment_text_def)
  then show ?thesis
    using not_spec_valid_nan not_spec_valid_inf
    by (simp add: rec_nan_def rec_inf_def demo_args demo_files)
qed

subsection \<open>C2\<close>

text \<open>
  C2. The claim: for every record that passes validation, the appended particle has the
  position of the record, its momentum scaled by \<open>1/length\<close> as direction (hence of
  magnitude within \<open>1e-5\<close> of 1), its kinetic energy, species code 2112 and weight 1. On
  \<^verbatim>\<open>mix.txt\<close> both records pass the two tests of the code. The first is appended with
  position (3, 4, 5), direction (0, 1, 0), kinetic energy 7, code 2112 and weight 1, as
  the claim says. The second, whose \<^verbatim>\<open>py\<close> is a NaN, passes as well, since no comparison
  holds of a NaN, and is appended with the direction (NaN, NaN, NaN), which has no
  magnitude at all. Lemmas \<open>valid_record_emission\<close> and \<open>accepts_characterisation\<close>
  above say that the appended direction has magnitude within \<open>1e-5\<close> of 1 for every
  accepted record but those whose \<^verbatim>\<open>dirsq\<close> is a NaN.
\<close>

theorem accepted_record_without_direction:
  "mix_fs (mix_argv ! 1) = Some (stream_of [rec_unit_y, rec_nan_y]) \<and>
   rec_unit_y = [Fin 3, Fin 4, Fin 5, Fin 0, Fin 2, Fin 0, Fin 7] \<and>
   rec_nan_y = [Fin 3, Fin 4, Fin 5, Fin 2, NaN, Fin 0, Fin 7] \<and>
   accepts (Fin 0) (Fin 2) (Fin 0) \<and> accepts (Fin 2) NaN (Fin 0) \<and>
   \<not> finite3 (NaN, NaN, NaN) \<and>
   main mix_fs demo_p0 mix_argv =
     (0, [Mcpl_create_outfile ''out.mcpl'', Mcpl_hdr_set_srcname ''out.mcpl'',
          Mcpl_hdr_add_comment ''Extracting Neutrons from the txt file'',
          Printf (Debugging_dirsq (Fin 1)),
          Mcpl_add_particle
            \<lparr>position = (Fin 3, Fin 4, Fin 5), pdgcode = 2112, ekin = Fin 7,
             direction = (Fin 0, Fin 1, Fin 0), weight = Fin 1\<rparr>,
          Printf (Added 0),
          Printf (Debugging_dirsq NaN),
          Mcpl_add_particle
            \<lparr>position = (Fin 3, Fin 4, Fin 5), pdgcode = 2112, ekin = Fin 7,
             direction = (NaN, NaN, NaN), weight = Fin 1\<rparr>,
          Printf (Added 1),
          Mcpl_closeandgzip_outfile, Fclose])"
proof -
  have f: "mix_fs (mix_argv ! 1) = Some (stream_of [rec_unit_y, rec_nan_y])"
    by (simp add: mix_args mix_fs_def)
  have r: "main mix_fs demo_p0 mix_argv =
     (0, trace (fold body_on [rec_unit_y, rec_nan_y] (state0 demo_p0 ''out.mcpl'')) @
         [Mcpl_closeandgzip_outfile, Fclose])"
    using main_runs [of mix_argv mix_fs "stream_of [rec_unit_y, rec_nan_y]" demo_p0] f
    by (simp add: mix_args parsed_mix)
  have "main mix_fs demo_p0 mix_argv =
     (0, [Mcpl_create_outfile ''out.mcpl'', Mcpl_hdr_set_srcname ''out.mcpl'',
          Mcpl_hdr_add_comment ''Extracting Neutrons from the txt file'',
          Printf (Debugging_dirsq (Fin 1)),
          Mcpl_add_particle
            \<lparr>position = (Fin 3, Fin 4, Fin 5), pdgcode = 2112, ekin = Fin 7,
             direction = (Fin 0, Fin 1, Fin 0), weight = Fin 1\<rparr>,
          Printf (Added 0),
          Printf (Debugging_dirsq NaN),
          Mcpl_add_particle
            \<lparr>position = (Fin 3, Fin 4, Fin 5), pdgcode = 2112, ekin = Fin 7,
             direction = (NaN, NaN, NaN), weight = Fin 1\<rparr>,
          Printf (Added 1),
          Mcpl_closeandgzip_outfile, Fclose])"
    unfolding r
    by (simp add: body_on_unit_y body_on_nan_y state0_def demo_p0_def emitted_rec_mix
        comment_text_def)
  then show ?thesis
    using f accepts_unit_y accepts_nan_y
    by (simp add: rec_unit_y_def rec_nan_y_def finite3_def is_finite_def)
qed

subsection \<open>C3\<close>

text \<open>
  C3. For every input, the particles appended to the sink are those of the complete
  7-field records that pass both tests, in the order of the records; the records reported
  as skipped (for zero momentum or for a direction that is not normalized) are the other
  complete records; so the number appended is the number of complete records minus the
  number skipped.
\<close>

theorem emitted_count_and_order:
  assumes "length argv = 3" and "fs (argv ! 1) = Some f"
  shows "added_particles (snd (main fs p0 argv)) =
           map (emitted_rec p0) (filter accepts_rec (parsed_records f)) \<and>
         count_skips (snd (main fs p0 argv)) =
           length (filter (\<lambda>r. \<not> accepts_rec r) (parsed_records f)) \<and>
         int (length (added_particles (snd (main fs p0 argv)))) =
           int (length (parsed_records f)) - int (count_skips (snd (main fs p0 argv)))"
proof -
  let ?recs = "parsed_records f"
  have len: "\<forall>r \<in> set ?recs. length r = 7"
    using parsed_records_length by blast
  note run = main_runs [of argv fs f p0, OF assms]
  have a: "added_particles (snd (main fs p0 argv)) = map (emitted_rec p0) (filter accepts_rec ?recs)"
    by (simp add: run added_particles_append fold_body_added state0_def)
  have b: "count_skips (snd (main fs p0 argv)) = length (filter (\<lambda>r. \<not> accepts_rec r) ?recs)"
    by (simp add: run count_skips_append fold_body_skips [OF len])
      (simp add: count_skips_def state0_def)
  have "length (filter accepts_rec ?recs) + length (filter (\<lambda>r. \<not> accepts_rec r) ?recs) =
        length ?recs"
    by (rule sum_length_filter_compl)
  with a b show ?thesis by simp
qed

text \<open>The theorem at a concrete input, its hypotheses discharged.\<close>

theorem emitted_count_and_order_witness:
  "length demo_argv = 3 \<and>
   demo_fs (demo_argv ! 1) = Some (stream_of [rec_unit_x, rec_at_rest]) \<and>
   parsed_records (stream_of [rec_unit_x, rec_at_rest]) = [rec_unit_x, rec_at_rest] \<and>
   added_particles (snd (main demo_fs demo_p0 demo_argv)) =
     [\<lparr>position = (Fin 0, Fin 0, Fin 0), pdgcode = 2112, ekin = Fin 5,
       direction = (Fin 1, Fin 0, Fin 0), weight = Fin 1\<rparr>] \<and>
   count_skips (snd (main demo_fs demo_p0 demo_argv)) = 1"
proof -
  have h1: "length demo_argv = 3"
    by (simp add: demo_args)
  have h2: "demo_fs (demo_argv ! 1) = Some (stream_of [rec_unit_x, rec_at_rest])"
    by (simp add: demo_args demo_files)
  show ?thesis
    using h1 h2 emitted_count_and_order [of demo_argv demo_fs "stream_of [rec_unit_x, rec_at_rest]" demo_p0, OF h1 h2]
    by (simp add: parsed_demo_in accepts_rec_demo emitted_rec_demo)
qed

subsection \<open>C4\<close>

text \<open>
  C4 (as amended). On a run that opens its input, the header calls on the sink are exactly
  two: the source-name label, set to the output file name (the second command-line
  argument, \<^verbatim>\<open>argv[2]\<close>), and one fixed descriptive comment.
\<close>

theorem srcname_is_output_file:
  assumes "length argv = 3" and "fs (argv ! 1) = Some f"
  shows "filter is_header_call (snd (main fs p0 argv)) =
           [Mcpl_hdr_set_srcname (argv ! 2), Mcpl_hdr_add_comment comment_text]"
  using assms by (rule main_header_calls)

text \<open>
  The claim as stated fails: on the run of \<^verbatim>\<open>Text2MCPL in.txt out.mcpl\<close> the label is
  \<^verbatim>\<open>out.mcpl\<close>, and the input file name is never given to the sink.
\<close>

theorem srcname_not_input_file:
  "demo_argv ! 1 = ''in.txt'' \<and>
   filter is_header_call (snd (main demo_fs demo_p0 demo_argv)) =
     [Mcpl_hdr_set_srcname ''out.mcpl'',
      Mcpl_hdr_add_comment ''Extracting Neutrons from the txt file''] \<and>
   \<not> Mcpl_hdr_set_srcname (demo_argv ! 1) \<in> set (snd (main demo_fs demo_p0 demo_argv))"
  by (simp add: demo_trace demo_args)

text \<open>The theorem at a concrete input, its hypotheses discharged.\<close>

theorem srcname_is_output_file_witness:
  "length demo_argv = 3 \<and>
   demo_fs (demo_argv ! 1) = Some (stream_of [rec_unit_x, rec_at_rest]) \<and>
   demo_argv ! 2 = ''out.mcpl'' \<and>
   filter is_header_call (snd (main demo_fs demo_p0 demo_argv)) =
     [Mcpl_hdr_set_srcname ''out.mcpl'', Mcpl_hdr_add_comment comment_text]"
proof -
  have h1: "length demo_argv = 3"
    by (simp add: demo_args)
  have h2: "demo_fs (demo_argv ! 1) = Some (stream_of [rec_unit_x, rec_at_rest])"
    by (simp add: demo_args demo_files)
  show ?thesis
    using h1 h2 srcname_is_output_file [of demo_argv demo_fs "stream_of [rec_unit_x, rec_at_rest]" demo_p0, OF h1 h2]
    by (simp add: demo_args)
qed

subsection \<open>C5\<close>

text \<open>
  C5. A record whose three momentum components compare equal to zero (\<^verbatim>\<open>==\<close> on
  \<^verbatim>\<open>double\<close>, so of either sign) is never appended, whatever its position and kinetic
  energy are: the loop reports it as skipped, counts it, and goes on with what follows it.
\<close>

theorem zero_momentum_skipped:
  assumes "feq px (Fin 0)" and "feq py (Fin 0)" and "feq pz (Fin 0)"
  shows "read_loop (Num hit_x # Num hit_y # Num hit_z # Num px # Num py # Num pz #
                    Num kinetic_energy # rest) s =
           read_loop rest
             (s\<lparr>trace := trace s @ [Printf (Skipping_zero (sint (ind s)))], ind := ind s + 1\<rparr>) \<and>
         added_particles (trace (loop_body hit_x hit_y hit_z px py pz kinetic_energy s)) =
           added_particles (trace s)"
proof -
  have z: "skips_zero px py pz"
    using assms by (simp add: skips_zero_momentum feq_zero_iff)
  have b: "loop_body hit_x hit_y hit_z px py pz kinetic_energy s =
           s\<lparr>trace := trace s @ [Printf (Skipping_zero (sint (ind s)))], ind := ind s + 1\<rparr>"
    by (simp add: loop_body_cases z)
  have "read_loop (map Num [hit_x, hit_y, hit_z, px, py, pz, kinetic_energy] @ rest) s =
        read_loop rest (body_on [hit_x, hit_y, hit_z, px, py, pz, kinetic_energy] s)"
    by (rule read_loop_step) simp
  then show ?thesis
    by (simp add: body_on_def b added_particles_append)
qed

text \<open>The theorem at a concrete input, its hypotheses discharged.\<close>

theorem zero_momentum_skipped_witness:
  "feq (Fin 0) (Fin 0) \<and> feq NegZero (Fin 0) \<and>
   read_loop [Num (Fin 1), Num (Fin 1), Num (Fin 1), Num (Fin 0), Num NegZero, Num (Fin 0),
              Num (Fin 3)] (state0 demo_p0 ''out.mcpl'') =
     (state0 demo_p0 ''out.mcpl'')
       \<lparr>trace := trace (state0 demo_p0 ''out.mcpl'') @ [Printf (Skipping_zero 0)], ind := 1\<rparr> \<and>
   added_particles (trace (loop_body (Fin 1) (Fin 1) (Fin 1) (Fin 0) NegZero (Fin 0) (Fin 3)
     (state0 demo_p0 ''out.mcpl''))) = []"
proof -
  have h1: "feq (Fin 0) (Fin 0)" and h2: "feq NegZero (Fin 0)"
    by (simp_all add: arith_defs)
  show ?thesis
    using h1 h2
      zero_momentum_skipped [OF h1 h2 h1, of "Fin 1" "Fin 1" "Fin 1" "Fin 3" "[]" "state0 demo_p0 ''out.mcpl''"]
    by (simp add: read_loop_stop fscanf7_Nil state0_def)
qed

subsection \<open>C6\<close>

text \<open>
  C6. Every input is a sequence of complete records followed by text on which \<^verbatim>\<open>fscanf\<close>
  does not return 7 (the end of the input, or fewer than 7 numerals), in one way only. The
  loop runs its body once for each of these records, in order, and stops at that first
  failed attempt: it is a total function, and it returns on every stream. The run then
  ends with exit status 0; the particles of the complete records are all in the trace;
  the sink is closed and compressed exactly once and the input is closed exactly once, as
  the last two events.
\<close>

theorem loop_stops_at_failed_scan:
  assumes "length argv = 3" and "fs (argv ! 1) = Some f"
  shows "(\<exists>tail. f = stream_of (parsed_records f) @ tail \<and> fst (fscanf7 tail) \<noteq> 7) \<and>
         (\<forall>recs tail. f = stream_of recs @ tail \<and> (\<forall>r \<in> set recs. length r = 7) \<and>
                     fst (fscanf7 tail) \<noteq> 7 \<longrightarrow> parsed_records f = recs) \<and>
         read_loop f s = fold body_on (parsed_records f) s \<and>
         main fs p0 argv =
           (0, trace (fold body_on (parsed_records f) (state0 p0 (argv ! 2))) @
               [Mcpl_closeandgzip_outfile, Fclose]) \<and>
         added_particles (snd (main fs p0 argv)) =
           map (emitted_rec p0) (filter accepts_rec (parsed_records f)) \<and>
         count_list (snd (main fs p0 argv)) Mcpl_closeandgzip_outfile = 1 \<and>
         count_list (snd (main fs p0 argv)) Fclose = 1"
proof -
  have d: "\<exists>tail. f = stream_of (parsed_records f) @ tail \<and> fst (fscanf7 tail) \<noteq> 7"
    by (rule stream_of_parsed_records)
  have u: "\<forall>recs tail. f = stream_of recs @ tail \<and> (\<forall>r \<in> set recs. length r = 7) \<and>
                     fst (fscanf7 tail) \<noteq> 7 \<longrightarrow> parsed_records f = recs"
    using parsed_records_stream_of by blast
  have l: "read_loop f s = fold body_on (parsed_records f) s"
    by (rule read_loop_fold)
  have m: "main fs p0 argv =
           (0, trace (fold body_on (parsed_records f) (state0 p0 (argv ! 2))) @
               [Mcpl_closeandgzip_outfile, Fclose])"
    using assms by (rule main_runs)
  obtain es where es:
    "trace (fold body_on (parsed_records f) (state0 p0 (argv ! 2))) =
       trace (state0 p0 (argv ! 2)) @ es"
    "list_all is_loop_event es"
    using fold_body_extends by blast
  have a: "added_particles (snd (main fs p0 argv)) =
           map (emitted_rec p0) (filter accepts_rec (parsed_records f))"
    by (simp add: m added_particles_append fold_body_added state0_def)
  have c: "count_list (snd (main fs p0 argv)) Mcpl_closeandgzip_outfile = 1 \<and>
           count_list (snd (main fs p0 argv)) Fclose = 1"
    using loop_events_no_close [OF es(2)] by (simp add: m es(1)) (simp add: state0_def)
  from d u l m a c show ?thesis by blast
qed

text \<open>The theorem at a concrete input, its hypotheses discharged.\<close>

theorem loop_stops_at_failed_scan_witness:
  "length cut_argv = 3 \<and>
   demo_fs (cut_argv ! 1) = Some (stream_of [rec_unit_x] @ [Num (Fin 2), Junk]) \<and>
   fst (fscanf7 [Num (Fin 2), Junk]) = 1 \<and>
   parsed_records (stream_of [rec_unit_x] @ [Num (Fin 2), Junk]) = [rec_unit_x] \<and>
   main demo_fs demo_p0 cut_argv =
     (0, [Mcpl_create_outfile ''out.mcpl'', Mcpl_hdr_set_srcname ''out.mcpl'',
          Mcpl_hdr_add_comment ''Extracting Neutrons from the txt file'',
          Printf (Debugging_dirsq (Fin 1)),
          Mcpl_add_particle
            \<lparr>position = (Fin 0, Fin 0, Fin 0), pdgcode = 2112, ekin = Fin 5,
             direction = (Fin 1, Fin 0, Fin 0), weight = Fin 1\<rparr>,
          Printf (Added 0), Mcpl_closeandgzip_outfile, Fclose]) \<and>
   count_list (snd (main demo_fs demo_p0 cut_argv)) Mcpl_closeandgzip_outfile = 1 \<and>
   count_list (snd (main demo_fs demo_p0 cut_argv)) Fclose = 1"
proof -
  have h1: "length cut_argv = 3"
    by (simp add: demo_args)
  have h2: "demo_fs (cut_argv ! 1) = Some (stream_of [rec_unit_x] @ [Num (Fin 2), Junk])"
    by (simp add: demo_args demo_files)
  note t = loop_stops_at_failed_scan [of cut_argv demo_fs
      "stream_of [rec_unit_x] @ [Num (Fin 2), Junk]" "state0 demo_p0 ''out.mcpl''" demo_p0,
      OF h1 h2]
  have m: "main demo_fs demo_p0 cut_argv =
     (0, trace (body_on rec_unit_x (state0 demo_p0 ''out.mcpl'')) @
         [Mcpl_closeandgzip_outfile, Fclose])"
    using t by (simp add: parsed_demo_cut demo_args)
  from t have c: "count_list (snd (main demo_fs demo_p0 cut_argv)) Mcpl_closeandgzip_outfile = 1"
    "count_list (snd (main demo_fs demo_p0 cut_argv)) Fclose = 1"
    by blast+
  show ?thesis
    using h1 h2 c by (simp add: m cut_trace fscanf7_cut parsed_demo_cut)
qed

subsection \<open>C7\<close>

text \<open>
  C7. The exit status is 1, after the usage message alone, when the argument count is not
  3; it is 1, after the error message alone, when the input file cannot be opened; it is
  0 whenever the input file can be opened, whatever it holds.
\<close>

theorem exit_status:
  "(length argv \<noteq> 3 \<longrightarrow>
      main fs p0 argv = (1, [Printf (Usage (case argv of [] \<Rightarrow> None | a # _ \<Rightarrow> Some a))])) \<and>
   (length argv = 3 \<and> fs (argv ! 1) = None \<longrightarrow>
      main fs p0 argv = (1, [Printf (Error_opening (argv ! 1))])) \<and>
   (length argv = 3 \<and> fs (argv ! 1) \<noteq> None \<longrightarrow> fst (main fs p0 argv) = 0)"
  by (auto simp: main_usage main_no_input main_runs)

text \<open>The theorem at a concrete input, its hypotheses discharged.\<close>

theorem exit_status_witness:
  "length [''Text2MCPL'', ''in.txt''] \<noteq> 3 \<and>
   main demo_fs demo_p0 [''Text2MCPL'', ''in.txt''] = (1, [Printf (Usage (Some ''Text2MCPL''))]) \<and>
   length missing_argv = 3 \<and> demo_fs (missing_argv ! 1) = None \<and>
   main demo_fs demo_p0 missing_argv = (1, [Printf (Error_opening ''missing.txt'')]) \<and>
   length demo_argv = 3 \<and> demo_fs (demo_argv ! 1) \<noteq> None \<and>
   fst (main demo_fs demo_p0 demo_argv) = 0"
  using exit_status [of "[''Text2MCPL'', ''in.txt'']" demo_fs demo_p0] exit_status [of missing_argv demo_fs demo_p0]
    exit_status [of demo_argv demo_fs demo_p0]
  by (simp add: demo_args demo_files)

subsection \<open>C8\<close>

text \<open>
  C8. The input file is opened before the sink is created: when it cannot be opened, the
  run makes no call to the sink at all (its only event is the error message), so no
  output container comes into existence.
\<close>

theorem no_sink_without_input:
  assumes "length argv = 3" and "fs (argv ! 1) = None"
  shows "filter is_sink_call (snd (main fs p0 argv)) = [] \<and>
         snd (main fs p0 argv) = [Printf (Error_opening (argv ! 1))] \<and>
         fst (main fs p0 argv) = 1"
  using assms by (simp add: main_no_input)

text \<open>The theorem at a concrete input, its hypotheses discharged.\<close>

theorem no_sink_without_input_witness:
  "length missing_argv = 3 \<and> demo_fs (missing_argv ! 1) = None \<and>
   filter is_sink_call (snd (main demo_fs demo_p0 missing_argv)) = [] \<and>
   snd (main demo_fs demo_p0 missing_argv) = [Printf (Error_opening ''missing.txt'')] \<and>
   fst (main demo_fs demo_p0 missing_argv) = 1"
proof -
  have h1: "length missing_argv = 3" and h2: "demo_fs (missing_argv ! 1) = None"
    by (simp_all add: demo_args demo_files)
  show ?thesis
    using h1 h2 no_sink_without_input [of missing_argv demo_fs demo_p0, OF h1 h2]
    by (simp add: demo_args)
qed

subsection \<open>C9\<close>



subsection \<open>C10\<close>




end
